theory Spec2Isabelle
  imports Main "HOL-Library.Sublist"
begin

section \<open>Values, errors and the invocation log\<close>

text \<open>
  JavaScript values as far as the engine inspects them: a handler result is tested for
  truthiness and passed to \<^verbatim>\<open>[].concat\<close>, which spreads an array and wraps anything else.
  Numbers are integers here (the engine does no arithmetic on them).
\<close>

datatype jsval =
    Undefined
  | Null
  | JBool bool
  | JNum int
  | JStr string
  | JArr "jsval list"
  | JObj "(string \<times> jsval) list"

fun truthy :: "jsval \<Rightarrow> bool" where
  "truthy Undefined = False"
| "truthy Null = False"
| "truthy (JBool b) = b"
| "truthy (JNum n) = (n \<noteq> 0)"
| "truthy (JStr s) = (s \<noteq> [])"
| "truthy (JArr xs) = True"
| "truthy (JObj fs) = True"

text \<open>\<^verbatim>\<open>[].concat(v)\<close>: the elements of an array, or the one value.\<close>

fun concat_js :: "jsval \<Rightarrow> jsval list" where
  "concat_js (JArr xs) = xs"
| "concat_js v = [v]"

text \<open>
  What a call can throw. \<open>StackDisciplineError\<close> is the \<^verbatim>\<open>new Error(...)\<close> of
  \<^verbatim>\<open>enterTopic\<close> and \<^verbatim>\<open>exitTopic\<close> with its message, \<open>UnknownStrategyError\<close> the one of the
  strategy switch, \<open>TypeError\<close> a property read on \<^verbatim>\<open>undefined\<close>, and \<open>Thrown\<close> whatever
  user code throws.
\<close>

datatype error =
    StackDisciplineError string
  | UnknownStrategyError string
  | TypeError
  | Thrown string

text \<open>
  The log of the calls the engine makes into user-supplied functions, in order. It is not
  program state: it records which function the engine called, so that "is invoked" and
  "is not run" can be stated. A context is named by its address.
\<close>

type_synonym ref = nat

datatype call =
    CallInit string
  | CallAfterInit string
  | CallCb ref
  | CallParse string
  | CallHandler string
  | CallMessageParser

section \<open>Data model\<close>

text \<open>
  A context object. \<open>topic\<close> and \<open>parentTopic\<close> hold the name of the topic object the
  source stores (the engine reads nothing but \<^verbatim>\<open>context.topic.name\<close>, and resolves the
  topic again by that name); \<open>None\<close> is \<^verbatim>\<open>undefined\<close>. The continuation \<open>cb\<close> is a handle
  of type \<open>'k\<close>, interpreted by a function given to \<open>exitTopic\<close>: a context lives in the
  state its continuation transforms, so the function itself cannot be stored in it.
  \<open>yakSession\<close> is the address of the session object the context was entered on.
\<close>

record 'k contextType =
  data :: jsval
  topic :: "string option"
  parentTopic :: "string option"
  yakSession :: ref
  activeHooks :: "string list"
  disabledHooks :: "string list"
  cb :: "'k option"

text \<open>
  A session object. \<open>contexts\<close> is the address of its array of contexts: a copy of a
  session (\<^verbatim>\<open>{ ...savedSession, topics }\<close>) shares the array with the original, so a push
  or pop through one is seen through the other, and an assignment to the field is not.
  The \<^verbatim>\<open>topics\<close> field holds functions on the state; it is a parameter where it is read.
\<close>

record yakSession =
  id' :: string
  type' :: string
  contexts :: ref
  virgin :: bool

record externalSession =
  ext_id :: string
  ext_type :: string

text \<open>
  The state user code can reach through a \<^verbatim>\<open>state\<close> argument: the objects in memory, by
  address (session objects in \<open>sessions\<close>, context arrays in \<open>arrays\<close>, context objects in
  \<open>heap\<close>; contexts are compared by reference, and all three are mutated in place), the
  session store, and the world outside (\<open>extern\<close>). \<open>calls\<close> is the invocation log.
\<close>

record ('k, 'u) world =
  sessions :: "ref \<Rightarrow> yakSession"
  arrays :: "ref \<Rightarrow> ref list"
  heap :: "ref \<Rightarrow> 'k contextType"
  nextRef :: ref
  store :: "string \<Rightarrow> ref option"
  extern :: 'u
  calls :: "call list"

record state =
  "context" :: "ref option"
  session :: externalSession

type_synonym ('a, 'k, 'u) action = "('k, 'u) world \<Rightarrow> (error + 'a) \<times> ('k, 'u) world"

record ('m, 'p, 'k, 'u) hook =
  name :: string
  parse :: "state \<Rightarrow> 'm option \<Rightarrow> ('p option, 'k, 'u) action"
  handler :: "state \<Rightarrow> 'p \<Rightarrow> (jsval, 'k, 'u) action"

text \<open>
  A topic descriptor. \<open>init\<close> receives the arguments and the external session only, no
  handle on the session's stack: it acts on the outside world. The \<^verbatim>\<open>callbacks\<close> field is
  stored by \<^verbatim>\<open>defTopic\<close> and never read by the engine; it is left out.
\<close>

record ('m, 'p, 'k, 'u) topic =
  name :: string
  isRoot :: bool
  init :: "jsval \<Rightarrow> externalSession \<Rightarrow> 'u \<Rightarrow> (error + jsval) \<times> 'u"
  hooks :: "('m, 'p, 'k, 'u) hook list"
  afterInit :: "(state \<Rightarrow> externalSession \<Rightarrow> (jsval, 'k, 'u) action) option"

section \<open>Calls into user code\<close>

text \<open>
  \<open>invoke\<close> runs a user function that was handed a \<^verbatim>\<open>state\<close>; \<open>invokeExt\<close> one
  that was not. Both log the call. The log after the call is the log before it plus this
  one entry: what the user function does while it runs is its own business.
\<close>

definition invoke :: "call \<Rightarrow> ('a, 'k, 'u) action \<Rightarrow> ('a, 'k, 'u) action" where
  "invoke ev f w = (case f w of (r, w') \<Rightarrow> (r, w'\<lparr>calls := calls w @ [ev]\<rparr>))"

definition invokeExt :: "call \<Rightarrow> ('u \<Rightarrow> (error + 'a) \<times> 'u) \<Rightarrow> ('a, 'k, 'u) action" where
  "invokeExt ev g w = (case g (extern w) of (r, u') \<Rightarrow> (r, w\<lparr>extern := u', calls := calls w @ [ev]\<rparr>))"

text \<open>An object or array literal allocates a fresh object, at the next free address.\<close>

definition alloc :: "'k contextType \<Rightarrow> ('k, 'u) world \<Rightarrow> ref \<times> ('k, 'u) world" where
  "alloc c w = (nextRef w, w\<lparr>heap := (heap w)(nextRef w := c), nextRef := Suc (nextRef w)\<rparr>)"

definition allocArray :: "ref list \<Rightarrow> ('k, 'u) world \<Rightarrow> ref \<times> ('k, 'u) world" where
  "allocArray cs w = (nextRef w, w\<lparr>arrays := (arrays w)(nextRef w := cs), nextRef := Suc (nextRef w)\<rparr>)"

definition allocSession :: "yakSession \<Rightarrow> ('k, 'u) world \<Rightarrow> ref \<times> ('k, 'u) world" where
  "allocSession y w = (nextRef w, w\<lparr>sessions := (sessions w)(nextRef w := y), nextRef := Suc (nextRef w)\<rparr>)"

text \<open>\<^verbatim>\<open>yakSession.contexts\<close>, read through the session at address \<open>yak\<close>.\<close>

definition contextsOf :: "ref \<Rightarrow> ('k, 'u) world \<Rightarrow> ref list" where
  "contextsOf yak w = arrays w (contexts (sessions w yak))"

text \<open>\<^verbatim>\<open>yakSession.contexts = [newContext]\<close>: a new array, assigned to the field.\<close>

definition resetContexts :: "ref \<Rightarrow> ref \<Rightarrow> ('k, 'u) world \<Rightarrow> ('k, 'u) world" where
  "resetContexts yak newContext w =
     (let (a, w1) = allocArray [newContext] w
      in w1\<lparr>sessions := (sessions w1)(yak := (sessions w1 yak)\<lparr>contexts := a\<rparr>)\<rparr>)"

text \<open>\<^verbatim>\<open>yakSession.contexts.push(newContext)\<close> and \<^verbatim>\<open>yakSession.contexts.pop()\<close>, in place.\<close>

definition pushContext :: "ref \<Rightarrow> ref \<Rightarrow> ('k, 'u) world \<Rightarrow> ('k, 'u) world" where
  "pushContext yak newContext w =
     w\<lparr>arrays := (arrays w)(contexts (sessions w yak) := contextsOf yak w @ [newContext])\<rparr>"

definition popContext :: "ref \<Rightarrow> ('k, 'u) world \<Rightarrow> ('k, 'u) world" where
  "popContext yak w = w\<lparr>arrays := (arrays w)(contexts (sessions w yak) := butlast (contextsOf yak w))\<rparr>"

section \<open>Definition builders\<close>

definition defTopic ::
  "string \<Rightarrow> (jsval \<Rightarrow> externalSession \<Rightarrow> 'u \<Rightarrow> (error + jsval) \<times> 'u) \<Rightarrow> bool option \<Rightarrow>
   ('m, 'p, 'k, 'u) hook list option \<Rightarrow>
   (state \<Rightarrow> externalSession \<Rightarrow> (jsval, 'k, 'u) action) option \<Rightarrow> ('m, 'p, 'k, 'u) topic" where
  "defTopic n i opt_isRoot opt_hooks opt_afterInit =
     \<lparr>topic.name = n,
      isRoot = (case opt_isRoot of Some b \<Rightarrow> b | None \<Rightarrow> False),
      init = i,
      hooks = (case opt_hooks of Some hs \<Rightarrow> hs | None \<Rightarrow> []),
      afterInit = opt_afterInit\<rparr>"

definition defHook ::
  "('m, 'p, 'k, 'u) topic \<Rightarrow> string \<Rightarrow> (state \<Rightarrow> 'm option \<Rightarrow> ('p option, 'k, 'u) action) \<Rightarrow>
   (state \<Rightarrow> 'p \<Rightarrow> (jsval, 'k, 'u) action) \<Rightarrow> ('m, 'p, 'k, 'u) hook" where
  "defHook t n p h = \<lparr>hook.name = n, parse = p, handler = h\<rparr>"

section \<open>Context stack manager\<close>

definition activeContext :: "ref \<Rightarrow> ('k, 'u) world \<Rightarrow> ref option" where
  "activeContext yak w =
     (case contextsOf yak w of [] \<Rightarrow> None | _ \<Rightarrow> Some (last (contextsOf yak w)))"

definition findTopic :: "string \<Rightarrow> ('m, 'p, 'k, 'u) topic list \<Rightarrow> ('m, 'p, 'k, 'u) topic option" where
  "findTopic n topics = (case filter (\<lambda>t. topic.name t = n) topics of [] \<Rightarrow> None | t # _ \<Rightarrow> Some t)"

definition enterTopic ::
  "('m, 'p, 'k, 'u) topic option \<Rightarrow> state \<Rightarrow> ('m, 'p, 'k, 'u) topic \<Rightarrow> jsval \<Rightarrow> 'k option \<Rightarrow>
   (jsval, 'k, 'u) action" where
  "enterTopic topic' state newTopic args cb' w =
     (case context state of
        None \<Rightarrow> (Inl TypeError, w)
      | Some currentContext \<Rightarrow>
          let yak = yakSession (heap w currentContext);
              contextOnStack = activeContext yak w in
          if contextOnStack \<noteq> None \<and> Some currentContext \<noteq> contextOnStack
          then (Inl (StackDisciplineError ''You can only enter a new context from the last context.''), w)
          else
            (case invokeExt (CallInit (topic.name newTopic)) (init newTopic args (session state)) w of
               (Inl e, w1) \<Rightarrow> (Inl e, w1)
             | (Inr d, w1) \<Rightarrow>
                 let (newContext, w2) =
                       alloc \<lparr>data = d,
                              topic = Some (topic.name newTopic),
                              parentTopic = map_option topic.name topic',
                              yakSession = yak,
                              activeHooks = [],
                              disabledHooks = [],
                              cb = cb'\<rparr> w1;
                     w3 = (if isRoot newTopic
                           then resetContexts yak newContext w2
                           else pushContext yak newContext w2)
                 in (case afterInit newTopic of
                       Some f \<Rightarrow>
                         (case invoke (CallAfterInit (topic.name newTopic))
                                 (f \<lparr>context = Some newContext, session = session state\<rparr> (session state)) w3 of
                            (Inl e, w4) \<Rightarrow> (Inl e, w4)
                          | (Inr _, w4) \<Rightarrow> (Inr Undefined, w4))
                     | None \<Rightarrow> (Inr Undefined, w3))))"

text \<open>
  \<open>run_cb\<close> interprets a continuation handle. The stack is not empty where it is popped:
  the check above it fails on an empty stack, whose active context is \<^verbatim>\<open>undefined\<close>.
\<close>

definition exitTopic ::
  "('k \<Rightarrow> state \<Rightarrow> jsval \<Rightarrow> (jsval, 'k, 'u) action) \<Rightarrow> ('m, 'p, 'k, 'u) topic option \<Rightarrow> state \<Rightarrow>
   jsval \<Rightarrow> (jsval, 'k, 'u) action" where
  "exitTopic run_cb topic' state args w =
     (case context state of
        None \<Rightarrow> (Inl TypeError, w)
      | Some c \<Rightarrow>
          let yak = yakSession (heap w c) in
          if Some c \<noteq> activeContext yak w
          then (Inl (StackDisciplineError ''You can only exit from the current context.''), w)
          else
            let lastContext = last (contextsOf yak w);
                w1 = popContext yak w
            in (case cb (heap w1 lastContext) of
                  Some k \<Rightarrow>
                    let parentContext = activeContext yak w1
                    in invoke (CallCb lastContext)
                         (run_cb k \<lparr>context = parentContext, session = session state\<rparr> args) w1
                | None \<Rightarrow> (Inr Undefined, w1)))"

definition disableHooksExcept :: "state \<Rightarrow> string list \<Rightarrow> ('k, 'u) world \<Rightarrow> (error + unit) \<times> ('k, 'u) world" where
  "disableHooksExcept state list w =
     (case context state of
        None \<Rightarrow> (Inl TypeError, w)
      | Some c \<Rightarrow> (Inr (), w\<lparr>heap := (heap w)(c := (heap w c)\<lparr>activeHooks := list\<rparr>)\<rparr>))"

definition disableHooks :: "state \<Rightarrow> string list \<Rightarrow> ('k, 'u) world \<Rightarrow> (error + unit) \<times> ('k, 'u) world" where
  "disableHooks state list w =
     (case context state of
        None \<Rightarrow> (Inl TypeError, w)
      | Some c \<Rightarrow> (Inr (), w\<lparr>heap := (heap w)(c := (heap w c)\<lparr>disabledHooks := list\<rparr>)\<rparr>))"

section \<open>Pattern hooks\<close>

text \<open>
  A regular expression without the \<^verbatim>\<open>g\<close> and \<^verbatim>\<open>y\<close> flags is its \<^verbatim>\<open>exec\<close> function: the
  match array (the matched text, then the groups) and the offset of the match, or
  nothing. \<open>literal p\<close> is the expression whose source is the plain characters \<open>p\<close>, as
  \<^verbatim>\<open>/foo/\<close>: it matches the leftmost occurrence of \<open>p\<close> anywhere in the text.
\<close>

record regexMatch =
  groups :: "string list"
  index :: nat

type_synonym regExp = "string \<Rightarrow> regexMatch option"

fun search :: "string \<Rightarrow> string \<Rightarrow> nat \<Rightarrow> nat option" where
  "search p [] k = (if p = [] then Some k else None)"
| "search p (c # cs) k = (if take (length p) (c # cs) = p then Some k else search p cs (Suc k))"

definition literal :: "string \<Rightarrow> regExp" where
  "literal p s = (case search p s 0 of None \<Rightarrow> None | Some k \<Rightarrow> Some \<lparr>groups = [p], index = k\<rparr>)"

record incomingStringMessage =
  "text" :: string

text \<open>The parse result \<^verbatim>\<open>{ message, i, matches }\<close>.\<close>

record regexParseResult =
  pr_message :: incomingStringMessage
  pr_i :: nat
  pr_matches :: regexMatch

text \<open>The loop over \<^verbatim>\<open>patterns\<close>, from index \<open>k\<close> on.\<close>

fun patternLoop :: "regExp list \<Rightarrow> nat \<Rightarrow> incomingStringMessage \<Rightarrow> regexParseResult option" where
  "patternLoop [] k msg = None"
| "patternLoop (p # ps) k msg =
     (case p (text msg) of
        Some m \<Rightarrow> Some \<lparr>pr_message = msg, pr_i = k, pr_matches = m\<rparr>
      | None \<Rightarrow> patternLoop ps (Suc k) msg)"

definition defPattern ::
  "(incomingStringMessage, regexParseResult, 'k, 'u) topic \<Rightarrow> string \<Rightarrow> regExp list \<Rightarrow>
   (state \<Rightarrow> regexParseResult \<Rightarrow> (jsval, 'k, 'u) action) \<Rightarrow>
   (incomingStringMessage, regexParseResult, 'k, 'u) hook" where
  "defPattern t n patterns h =
     \<lparr>hook.name = n,
      parse = (\<lambda>state message w.
                 case message of
                   Some msg \<Rightarrow> (Inr (patternLoop patterns 0 msg), w)
                 | None \<Rightarrow> (Inr None, w)),
      handler = h\<rparr>"

section \<open>Hook dispatcher\<close>

definition runHook ::
  "('m, 'p, 'k, 'u) hook \<Rightarrow> state \<Rightarrow> 'm option \<Rightarrow> (bool \<times> jsval, 'k, 'u) action" where
  "runHook hook state message w =
     (case invoke (CallParse (hook.name hook)) (parse hook state message) w of
        (Inl e, w1) \<Rightarrow> (Inl e, w1)
      | (Inr parseResult, w1) \<Rightarrow>
          (case parseResult of
             Some pr \<Rightarrow>
               (case invoke (CallHandler (hook.name hook)) (handler hook state pr) w1 of
                  (Inl e, w2) \<Rightarrow> (Inl e, w2)
                | (Inr handlerResult, w2) \<Rightarrow> (Inr (True, handlerResult), w2))
           | None \<Rightarrow> (Inr (False, Undefined), w1)))"

text \<open>
  The loop over the hooks of the current topic. The pair is the loop's two variables
  \<^verbatim>\<open>handled\<close> and \<^verbatim>\<open>handlerResult\<close>.
\<close>

fun localLoop ::
  "('m, 'p, 'k, 'u) hook list \<Rightarrow> state \<Rightarrow> 'm option \<Rightarrow> bool \<times> jsval \<Rightarrow> (bool \<times> jsval, 'k, 'u) action" where
  "localLoop [] state message acc w = (Inr acc, w)"
| "localLoop (hook # rest) state message acc w =
     (case runHook hook state message w of
        (Inl e, w1) \<Rightarrow> (Inl e, w1)
      | (Inr (handled, handlerResult), w1) \<Rightarrow>
          if handled then (Inr (handled, handlerResult), w1)
          else localLoop rest state message (handled, handlerResult) w1)"

text \<open>
  The condition under which the global loop runs a hook, read from the context object as
  it is when the hook's turn comes.
\<close>

definition hookCondition :: "ref option \<Rightarrow> ('m, 'p, 'k, 'u) hook \<Rightarrow> ('k, 'u) world \<Rightarrow> bool" where
  "hookCondition ctx hook w =
     (case ctx of
        None \<Rightarrow> True
      | Some c \<Rightarrow>
          hook.name hook \<in> set (activeHooks (heap w c)) \<or>
          (length (activeHooks (heap w c)) = 0 \<and>
           (length (disabledHooks (heap w c)) = 0 \<or> hook.name hook \<notin> set (disabledHooks (heap w c)))))"

text \<open>
  The eligibility rule in the specification's words, for comparison with \<open>hookCondition\<close>:
  with a non-empty allow-list the name must be in it; otherwise, with a non-empty
  deny-list the name must not be in it; otherwise the hook is eligible.
\<close>

definition eligible_spec :: "string list \<Rightarrow> string list \<Rightarrow> string \<Rightarrow> bool" where
  "eligible_spec allow deny n =
     (if allow \<noteq> [] then n \<in> set allow
      else if deny \<noteq> [] then n \<notin> set deny
      else True)"

fun globalLoop ::
  "('m, 'p, 'k, 'u) hook list \<Rightarrow> ref option \<Rightarrow> ref \<Rightarrow> externalSession \<Rightarrow> 'm option \<Rightarrow> bool \<times> jsval \<Rightarrow>
   (bool \<times> jsval, 'k, 'u) action" where
  "globalLoop [] ctx globalContext sess message acc w = (Inr acc, w)"
| "globalLoop (hook # rest) ctx globalContext sess message acc w =
     (if hookCondition ctx hook w
      then
        (case runHook hook
                \<lparr>context = Some (case ctx of Some c \<Rightarrow> c | None \<Rightarrow> globalContext), session = sess\<rparr>
                message w of
           (Inl e, w1) \<Rightarrow> (Inl e, w1)
         | (Inr (handled, handlerResult), w1) \<Rightarrow>
             if handled then (Inr (handled, handlerResult), w1)
             else globalLoop rest ctx globalContext sess message (handled, handlerResult) w1)
      else globalLoop rest ctx globalContext sess message acc w)"

text \<open>
  The local phase: with an active context, its topic is resolved by name in the registry
  (\<^verbatim>\<open>yakSession.topics\<close>, the parameter \<open>topics\<close>: a registry holds functions on the state
  and is not part of it). An unresolved topic makes \<^verbatim>\<open>currentTopic.hooks\<close> a TypeError.
\<close>

definition localPhase ::
  "externalSession \<Rightarrow> 'm option \<Rightarrow> ref \<Rightarrow> ('m, 'p, 'k, 'u) topic list \<Rightarrow> (bool \<times> jsval, 'k, 'u) action" where
  "localPhase sess message yak topics w =
     (case activeContext yak w of
        Some c \<Rightarrow>
          (case topic (heap w c) of
             None \<Rightarrow> (Inl TypeError, w)
           | Some n \<Rightarrow>
               (case findTopic n topics of
                  None \<Rightarrow> (Inl TypeError, w)
                | Some currentTopic \<Rightarrow>
                    localLoop (hooks currentTopic) \<lparr>context = Some c, session = sess\<rparr> message
                      (False, Undefined) w))
      | None \<Rightarrow> (Inr (False, Undefined), w))"

text \<open>The hooks the local phase scans: those of the active context's topic, if it resolves.\<close>

definition currentHooks ::
  "ref \<Rightarrow> ('m, 'p, 'k, 'u) topic list \<Rightarrow> ('k, 'u) world \<Rightarrow> ('m, 'p, 'k, 'u) hook list" where
  "currentHooks yak topics w =
     (case activeContext yak w of
        None \<Rightarrow> []
      | Some c \<Rightarrow>
          (case topic (heap w c) of
             None \<Rightarrow> []
           | Some n \<Rightarrow> (case findTopic n topics of None \<Rightarrow> [] | Some t \<Rightarrow> hooks t)))"

text \<open>The global phase: skipped when handled; without a global topic, a TypeError.\<close>

definition globalPhase ::
  "externalSession \<Rightarrow> 'm option \<Rightarrow> ref option \<Rightarrow> ('m, 'p, 'k, 'u) topic option \<Rightarrow> ref \<Rightarrow> bool \<times> jsval \<Rightarrow>
   (bool \<times> jsval, 'k, 'u) action" where
  "globalPhase sess message ctx globalTopic globalContext acc w =
     (if \<not> fst acc
      then
        (case globalTopic of
           None \<Rightarrow> (Inl TypeError, w)
         | Some g \<Rightarrow> globalLoop (hooks g) ctx globalContext sess message acc w)
      else (Inr acc, w))"

text \<open>
  The two phases: the final values of \<^verbatim>\<open>handled\<close> and \<^verbatim>\<open>handlerResult\<close>. The context
  both phases refer to is the one active on the session \<open>yak\<close> when the dispatch begins.
\<close>

definition dispatch ::
  "externalSession \<Rightarrow> 'm option \<Rightarrow> ref \<Rightarrow> ('m, 'p, 'k, 'u) topic list \<Rightarrow> ('m, 'p, 'k, 'u) topic option \<Rightarrow>
   ref \<Rightarrow> (bool \<times> jsval, 'k, 'u) action" where
  "dispatch sess message yak topics globalTopic globalContext w =
     (let ctx = activeContext yak w in
      case localPhase sess message yak topics w of
        (Inl e, w1) \<Rightarrow> (Inl e, w1)
      | (Inr acc, w1) \<Rightarrow> globalPhase sess message ctx globalTopic globalContext acc w1)"

text \<open>
  \<^verbatim>\<open>processMessage(session, message, yakSession, globalTopic, globalContext)\<close>; \<open>yak\<close> is the
  address of \<^verbatim>\<open>yakSession\<close> and \<open>topics\<close> its \<^verbatim>\<open>topics\<close> field.
\<close>

definition processMessage ::
  "externalSession \<Rightarrow> 'm option \<Rightarrow> ref \<Rightarrow> ('m, 'p, 'k, 'u) topic list \<Rightarrow> ('m, 'p, 'k, 'u) topic option \<Rightarrow>
   ref \<Rightarrow> (jsval list, 'k, 'u) action" where
  "processMessage sess message yak topics globalTopic globalContext w =
     (case dispatch sess message yak topics globalTopic globalContext w of
        (Inl e, w1) \<Rightarrow> (Inl e, w1)
      | (Inr (handled, handlerResult), w1) \<Rightarrow>
          (Inr (if truthy handlerResult then concat_js handlerResult else []), w1))"

section \<open>Session orchestrator\<close>

text \<open>
  Modelled from the spec: the session store (\<^verbatim>\<open>./lib/session\<close>), of which the spec gives
  the contract \<^verbatim>\<open>get(id) -> session | null\<close> and \<^verbatim>\<open>save(session) -> void\<close>. The store
  maps a session id to the address of the session object saved under it; that object, its
  array and its contexts are objects in memory, and which session object each of those
  contexts refers to is whatever the state says.
\<close>

definition libSession_get :: "string \<Rightarrow> ('k, 'u) world \<Rightarrow> ref option" where
  "libSession_get sid w = store w sid"

definition libSession_save :: "ref \<Rightarrow> ('k, 'u) world \<Rightarrow> ('k, 'u) world" where
  "libSession_save yak w = w\<lparr>store := (store w)(id' (sessions w yak) \<mapsto> yak)\<rparr>"

text \<open>
  A channel formatter (\<^verbatim>\<open>./formatters/fb\<close>, \<^verbatim>\<open>./formatters/web\<close>) is a parameter. The raw
  message it is given is \<^verbatim>\<open>undefined\<close> when the batch is empty.
\<close>

record ('raw, 'm) formatter =
  parseIncomingMessage :: "'raw option \<Rightarrow> 'm option"
  mergeIncomingMessages :: "'raw list \<Rightarrow> 'm option"

definition formatters ::
  "('raw, 'm) formatter \<Rightarrow> ('raw, 'm) formatter \<Rightarrow> string \<Rightarrow> ('raw, 'm) formatter option" where
  "formatters fbFormatter webFormatter ty =
     (if ty = ''facebook'' then Some fbFormatter
      else if ty = ''web'' then Some webFormatter
      else None)"

datatype ('m, 'u) messageOptions =
    Custom "'m option list \<Rightarrow> 'u \<Rightarrow> (error + 'm option) \<times> 'u"
  | Single
  | Merge
  | First
  | Last
  | Unrecognized string

record ('m, 'u) initOptions =
  getSessionId :: "(externalSession \<Rightarrow> string) option"
  getSessionType :: "(externalSession \<Rightarrow> string) option"
  messageOptions :: "('m, 'u) messageOptions option"

text \<open>The handler's second argument: one raw message or an array of them.\<close>

datatype 'raw incoming = One 'raw | Batch "'raw list"

text \<open>
  The session object of a call: a copy of the saved one (same array of contexts), or a
  new virgin one with an empty array.
\<close>

definition loadSession :: "string \<Rightarrow> string \<Rightarrow> ('k, 'u) world \<Rightarrow> ref \<times> ('k, 'u) world" where
  "loadSession sid ty w =
     (case libSession_get sid w of
        Some savedSession \<Rightarrow> allocSession (sessions w savedSession) w
      | None \<Rightarrow>
          (let (a, w1) = allocArray [] w
           in allocSession \<lparr>id' = sid, type' = ty, contexts = a, virgin = True\<rparr> w1))"

text \<open>
  The first-contact block: a virgin session loses the flag and, with a topic
  \<^verbatim>\<open>"main"\<close> in the registry, enters it from the global context.
\<close>

definition bootstrap ::
  "externalSession \<Rightarrow> ref \<Rightarrow> ('m, 'p, 'k, 'u) topic list \<Rightarrow> ('m, 'p, 'k, 'u) topic option \<Rightarrow> ref \<Rightarrow>
   (jsval, 'k, 'u) action" where
  "bootstrap sess yak topics globalTopic globalContext w =
     (if virgin (sessions w yak)
      then
        let w1 = w\<lparr>sessions := (sessions w)(yak := (sessions w yak)\<lparr>virgin := False\<rparr>)\<rparr>
        in (case findTopic ''main'' topics of
              Some mainTopic \<Rightarrow>
                enterTopic globalTopic \<lparr>context = Some globalContext, session = sess\<rparr> mainTopic
                  Undefined None w1
            | None \<Rightarrow> (Inr Undefined, w1))
      else (Inr Undefined, w))"

text \<open>
  The loop of the \<^verbatim>\<open>"single"\<close> strategy. \<^verbatim>\<open>if (result) results = result\<close> always assigns:
  \<^verbatim>\<open>processMessage\<close> returns an array, and an array, also the empty one, is truthy.
  Without a formatter for the session's type, the first message raises a TypeError.
\<close>

fun singleLoop ::
  "'raw list \<Rightarrow> ('raw, 'm) formatter option \<Rightarrow> externalSession \<Rightarrow> ref \<Rightarrow> ('m, 'p, 'k, 'u) topic list \<Rightarrow>
   ('m, 'p, 'k, 'u) topic option \<Rightarrow> ref \<Rightarrow> jsval list \<Rightarrow> (jsval list, 'k, 'u) action" where
  "singleLoop [] fmt sess yak topics globalTopic globalContext results w = (Inr results, w)"
| "singleLoop (m # ms) fmt sess yak topics globalTopic globalContext results w =
     (case fmt of
        None \<Rightarrow> (Inl TypeError, w)
      | Some f \<Rightarrow>
          (case processMessage sess (parseIncomingMessage f (Some m)) yak topics globalTopic globalContext w of
             (Inl e, w1) \<Rightarrow> (Inl e, w1)
           | (Inr result, w1) \<Rightarrow> singleLoop ms fmt sess yak topics globalTopic globalContext result w1))"

text \<open>
  \<^verbatim>\<open>messages.map(m => formatters[session.type].parseIncomingMessage(m))\<close>: without a
  formatter the first element raises a TypeError (\<open>None\<close>), and an empty batch does not.
\<close>

fun parseAll :: "'raw list \<Rightarrow> ('raw, 'm) formatter option \<Rightarrow> 'm option list option" where
  "parseAll [] fmt = Some []"
| "parseAll (m # ms) None = None"
| "parseAll (m # ms) (Some f) = Some (map (\<lambda>x. parseIncomingMessage f (Some x)) (m # ms))"

text \<open>The strategy switch; \<open>results\<close> starts as the empty array.\<close>

definition strategySwitch ::
  "('m, 'u) messageOptions \<Rightarrow> 'raw list \<Rightarrow> ('raw, 'm) formatter option \<Rightarrow> externalSession \<Rightarrow> ref \<Rightarrow>
   ('m, 'p, 'k, 'u) topic list \<Rightarrow> ('m, 'p, 'k, 'u) topic option \<Rightarrow> ref \<Rightarrow> (jsval list, 'k, 'u) action" where
  "strategySwitch opts messages fmt sess yak topics globalTopic globalContext w =
     (case opts of
        Last \<Rightarrow>
          (case fmt of
             None \<Rightarrow> (Inl TypeError, w)
           | Some f \<Rightarrow>
               processMessage sess
                 (parseIncomingMessage f (if messages = [] then None else Some (last messages)))
                 yak topics globalTopic globalContext w)
      | First \<Rightarrow>
          (case fmt of
             None \<Rightarrow> (Inl TypeError, w)
           | Some f \<Rightarrow>
               processMessage sess
                 (parseIncomingMessage f (case messages of [] \<Rightarrow> None | m # _ \<Rightarrow> Some m))
                 yak topics globalTopic globalContext w)
      | Single \<Rightarrow> singleLoop messages fmt sess yak topics globalTopic globalContext [] w
      | Merge \<Rightarrow>
          (case fmt of
             None \<Rightarrow> (Inl TypeError, w)
           | Some f \<Rightarrow>
               processMessage sess (mergeIncomingMessages f messages) yak topics globalTopic globalContext w)
      | Custom messageParser \<Rightarrow>
          (case parseAll messages fmt of
             None \<Rightarrow> (Inl TypeError, w)
           | Some parsedMessages \<Rightarrow>
               (case invokeExt CallMessageParser (messageParser parsedMessages) w of
                  (Inl e, w1) \<Rightarrow> (Inl e, w1)
                | (Inr customMessage, w1) \<Rightarrow>
                    processMessage sess customMessage yak topics globalTopic globalContext w1))
      | Unrecognized s \<Rightarrow> (Inl (UnknownStrategyError ''Unknown message type.''), w))"

text \<open>
  \<^verbatim>\<open>init\<close> and the handler it returns. The handler dispatches on, and saves, its own
  session object \<open>yak\<close>; a hook that enters or exits a topic acts on the session its
  context refers to, which for a context of a loaded session is another object sharing
  the array. The global context is a fresh object of \<open>yak\<close>, so it is never on a stack.
\<close>

definition init_handler ::
  "('m, 'p, 'k, 'u) topic list \<Rightarrow> ('m, 'u) initOptions \<Rightarrow> ('raw, 'm) formatter \<Rightarrow> ('raw, 'm) formatter \<Rightarrow>
   externalSession \<Rightarrow> 'raw incoming \<Rightarrow> (jsval list, 'k, 'u) action" where
  "init_handler allTopics options fbFormatter webFormatter sess messages' w =
     (let globalTopic = findTopic ''global'' allTopics;
          topics = filter (\<lambda>t. topic.name t \<noteq> ''global'') allTopics;
          getId = (case getSessionId options of Some f \<Rightarrow> f | None \<Rightarrow> ext_id);
          getType = (case getSessionType options of Some f \<Rightarrow> f | None \<Rightarrow> ext_type);
          opts = (case messageOptions options of Some m \<Rightarrow> m | None \<Rightarrow> Last);
          messages = (case messages' of Batch ms \<Rightarrow> ms | One m \<Rightarrow> [m]);
          (yak, w') = loadSession (getId sess) (getType sess) w;
          (globalContext, w0) =
             alloc \<lparr>data = Undefined, topic = map_option topic.name globalTopic, parentTopic = None,
                    yakSession = yak, activeHooks = [], disabledHooks = [], cb = None\<rparr> w'
      in case bootstrap sess yak topics globalTopic globalContext w0 of
           (Inl e, w1) \<Rightarrow> (Inl e, w1)
         | (Inr _, w1) \<Rightarrow>
             (case strategySwitch opts messages (formatters fbFormatter webFormatter (ext_type sess))
                     sess yak topics globalTopic globalContext w1 of
                (Inl e, w2) \<Rightarrow> (Inl e, w2)
              | (Inr results, w2) \<Rightarrow> (Inr results, libSession_save yak w2)))"

section \<open>Example sessions\<close>

text \<open>Concrete sessions, topics and hooks, at which the theorems below are exercised.\<close>

definition blankContext :: "nat contextType" where
  "blankContext =
     \<lparr>data = Undefined, topic = None, parentTopic = None, yakSession = 0,
      activeHooks = [], disabledHooks = [], cb = None\<rparr>"

definition blankSession :: yakSession where
  "blankSession = \<lparr>id' = ''u1'', type' = ''web'', contexts = 1, virgin = False\<rparr>"

definition webUser :: externalSession where
  "webUser = \<lparr>ext_id = ''u1'', ext_type = ''web''\<rparr>"

text \<open>
  An empty memory, and a session (object 0, array 1) two topics deep: the context 2 of
  \<open>main\<close> and, on top, the context 3 of \<open>child\<close> with the continuation 7.
\<close>

definition emptyWorld :: "(nat, unit) world" where
  "emptyWorld =
     \<lparr>sessions = (\<lambda>_. blankSession), arrays = (\<lambda>_. []), heap = (\<lambda>_. blankContext),
      nextRef = 0, store = (\<lambda>_. None), extern = (), calls = []\<rparr>"

definition nestedWorld :: "(nat, unit) world" where
  "nestedWorld =
     emptyWorld
       \<lparr>arrays := (\<lambda>_. [])(1 := [2, 3]),
        heap := (\<lambda>_. blankContext)
          (2 := blankContext\<lparr>topic := Some ''main''\<rparr>,
           3 := blankContext\<lparr>topic := Some ''child'', parentTopic := Some ''main'', cb := Some 7\<rparr>),
        nextRef := 4\<rparr>"

definition echo_cb :: "nat \<Rightarrow> state \<Rightarrow> jsval \<Rightarrow> (jsval, nat, unit) action" where
  "echo_cb k st args w = (Inr (JArr [JNum (int k), args]), w)"

definition childTopic :: "(incomingStringMessage, regexParseResult, nat, unit) topic" where
  "childTopic = defTopic ''child'' (\<lambda>args s u. (Inr args, u)) None None None"

definition rootTopic :: "(incomingStringMessage, regexParseResult, nat, unit) topic" where
  "rootTopic = defTopic ''home'' (\<lambda>args s u. (Inr args, u)) (Some True) None None"

text \<open>
  A root topic whose \<open>afterInit\<close> enters \<open>child\<close> from the new context, and a non-root
  topic whose \<open>afterInit\<close> exits from the new context at once.
\<close>

definition homeThenChild :: "(incomingStringMessage, regexParseResult, nat, unit) topic" where
  "homeThenChild =
     defTopic ''home'' (\<lambda>args s u. (Inr args, u)) (Some True) None
       (Some (\<lambda>st s. enterTopic (Some rootTopic) st childTopic Undefined None))"

definition bounceTopic :: "(incomingStringMessage, regexParseResult, nat, unit) topic" where
  "bounceTopic =
     defTopic ''bounce'' (\<lambda>args s u. (Inr args, u)) None None
       (Some (\<lambda>st s. exitTopic echo_cb (None :: (incomingStringMessage, regexParseResult, nat, unit) topic option)
                       st Undefined))"

text \<open>
  A session inside the topic \<open>main\<close>, whose hook answers a greeting, with a global topic
  whose hook matches the same text.
\<close>

definition stubTopic :: "(incomingStringMessage, regexParseResult, nat, unit) topic" where
  "stubTopic = defTopic ''stub'' (\<lambda>args s u. (Inr Undefined, u)) None None None"

definition helloHook :: "(incomingStringMessage, regexParseResult, nat, unit) hook" where
  "helloHook = defPattern stubTopic ''hello'' [literal ''hello''] (\<lambda>st pr w. (Inr (JStr ''hi''), w))"

definition fallbackHook :: "(incomingStringMessage, regexParseResult, nat, unit) hook" where
  "fallbackHook = defPattern stubTopic ''fallback'' [literal ''h''] (\<lambda>st pr w. (Inr (JStr ''global''), w))"

definition mainTopicEx :: "(incomingStringMessage, regexParseResult, nat, unit) topic" where
  "mainTopicEx = defTopic ''main'' (\<lambda>args s u. (Inr Undefined, u)) (Some True) (Some [helloHook]) None"

definition globalTopic0 :: "(incomingStringMessage, regexParseResult, nat, unit) topic" where
  "globalTopic0 = defTopic ''global'' (\<lambda>args s u. (Inr Undefined, u)) None (Some [fallbackHook]) None"

definition mainWorld :: "(nat, unit) world" where
  "mainWorld =
     emptyWorld
       \<lparr>arrays := (\<lambda>_. [])(1 := [2]),
        heap := (\<lambda>_. blankContext)(2 := blankContext\<lparr>topic := Some ''main''\<rparr>),
        nextRef := 3\<rparr>"

definition hello :: incomingStringMessage where
  "hello = \<lparr>text = ''hello''\<rparr>"

definition hey :: incomingStringMessage where
  "hey = \<lparr>text = ''hey''\<rparr>"

text \<open>
  Two global hooks \<open>a\<close> and \<open>b\<close> that both match the greeting, a session whose active
  context allows only \<open>b\<close>, and a hook whose handler returns nothing.
\<close>

definition hookA :: "(incomingStringMessage, regexParseResult, nat, unit) hook" where
  "hookA = defPattern stubTopic ''a'' [literal ''h''] (\<lambda>st pr w. (Inr (JStr ''A''), w))"

definition hookB :: "(incomingStringMessage, regexParseResult, nat, unit) hook" where
  "hookB = defPattern stubTopic ''b'' [literal ''h''] (\<lambda>st pr w. (Inr (JStr ''B''), w))"

definition globalAB :: "(incomingStringMessage, regexParseResult, nat, unit) topic" where
  "globalAB = defTopic ''global'' (\<lambda>args s u. (Inr Undefined, u)) None (Some [hookA, hookB]) None"

definition onlyBWorld :: "(nat, unit) world" where
  "onlyBWorld = mainWorld\<lparr>heap := (heap mainWorld)(2 := (heap mainWorld 2)\<lparr>activeHooks := [''b'']\<rparr>)\<rparr>"

definition quietHook :: "(incomingStringMessage, regexParseResult, nat, unit) hook" where
  "quietHook = defPattern stubTopic ''quiet'' [literal ''h''] (\<lambda>st pr w. (Inr Undefined, w))"

definition quietGlobal :: "(incomingStringMessage, regexParseResult, nat, unit) topic" where
  "quietGlobal = defTopic ''global'' (\<lambda>args s u. (Inr Undefined, u)) None (Some [quietHook]) None"

text \<open>The pattern hook built from \<^verbatim>\<open>[/foo/, /bar/]\<close> and the message \<^verbatim>\<open>"barfoo"\<close>.\<close>

definition fooBarHook :: "(incomingStringMessage, regexParseResult, nat, unit) hook" where
  "fooBarHook = defPattern stubTopic ''fooOrBar'' [literal ''foo'', literal ''bar''] (\<lambda>st pr w. (Inr Undefined, w))"

definition barfoo :: incomingStringMessage where
  "barfoo = \<lparr>text = ''barfoo''\<rparr>"

text \<open>
  A first contact: the registry holds \<open>main\<close> and a global topic without hooks, nothing is
  saved in the store, and raw messages are strings that the formatter wraps.
\<close>

definition textFormatter :: "(string, incomingStringMessage) formatter" where
  "textFormatter =
     \<lparr>parseIncomingMessage = map_option (\<lambda>s. \<lparr>text = s\<rparr>),
      mergeIncomingMessages = (\<lambda>ms. Some \<lparr>text = concat ms\<rparr>)\<rparr>"

definition emptyGlobal :: "(incomingStringMessage, regexParseResult, nat, unit) topic" where
  "emptyGlobal = defTopic ''global'' (\<lambda>args s u. (Inr Undefined, u)) None None None"

definition defaultOptions :: "(incomingStringMessage, unit) initOptions" where
  "defaultOptions = \<lparr>getSessionId = None, getSessionType = None, messageOptions = None\<rparr>"

definition singleOptions :: "(incomingStringMessage, unit) initOptions" where
  "singleOptions = \<lparr>getSessionId = None, getSessionType = None, messageOptions = Some Single\<rparr>"

text \<open>
  A saved session: the store holds the session object 0 of \<open>mainWorld\<close>, and the topic
  \<open>main\<close> has one hook whose handler enters a root topic and one whose handler enters a
  non-root topic, both from the state they are given.
\<close>

definition goHook :: "(incomingStringMessage, regexParseResult, nat, unit) hook" where
  "goHook = defPattern stubTopic ''go'' [literal ''go'']
              (\<lambda>st pr. enterTopic (Some stubTopic) st rootTopic Undefined None)"

definition pushHook :: "(incomingStringMessage, regexParseResult, nat, unit) hook" where
  "pushHook = defPattern stubTopic ''push'' [literal ''push'']
                (\<lambda>st pr. enterTopic (Some stubTopic) st childTopic Undefined None)"

definition mainGoTopic :: "(incomingStringMessage, regexParseResult, nat, unit) topic" where
  "mainGoTopic =
     defTopic ''main'' (\<lambda>args s u. (Inr Undefined, u)) (Some True) (Some [goHook, pushHook]) None"

definition savedWorld :: "(nat, unit) world" where
  "savedWorld = mainWorld\<lparr>store := (\<lambda>_. None)(''u1'' \<mapsto> 0)\<rparr>"

section \<open>Auxiliary facts\<close>

lemma activeContext_alt:
  "activeContext yak w = (if contextsOf yak w = [] then None else Some (last (contextsOf yak w)))"
  by (simp add: activeContext_def split: list.splits)

lemma enterTopic_admitted:
  assumes "context st = Some c"
      and "contextsOf (yakSession (heap w c)) w = [] \<or> c = last (contextsOf (yakSession (heap w c)) w)"
      and "init newTopic args (session st) (extern w) = (Inr d, u')"
  shows "enterTopic topic' st newTopic args cb' w =
           (let yak = yakSession (heap w c);
                w2 = w\<lparr>extern := u', calls := calls w @ [CallInit (topic.name newTopic)],
                       heap := (heap w)(nextRef w :=
                         \<lparr>data = d, topic = Some (topic.name newTopic),
                          parentTopic = map_option topic.name topic', yakSession = yak,
                          activeHooks = [], disabledHooks = [], cb = cb'\<rparr>),
                       nextRef := Suc (nextRef w)\<rparr>;
                w3 = (if isRoot newTopic then resetContexts yak (nextRef w) w2
                      else pushContext yak (nextRef w) w2)
            in case afterInit newTopic of
                 None \<Rightarrow> (Inr Undefined, w3)
               | Some f \<Rightarrow>
                   (case invoke (CallAfterInit (topic.name newTopic))
                           (f \<lparr>context = Some (nextRef w), session = session st\<rparr> (session st)) w3 of
                      (Inl e, w4) \<Rightarrow> (Inl e, w4)
                    | (Inr _, w4) \<Rightarrow> (Inr Undefined, w4)))"
proof -
  have pass: "activeContext (yakSession (heap w c)) w = None
            \<or> activeContext (yakSession (heap w c)) w = Some c"
    using assms(2) by (auto simp: activeContext_alt)
  show ?thesis
    using assms(1,3) pass
    by (auto simp: enterTopic_def invokeExt_def alloc_def Let_def split: option.splits)
qed

lemma invoke_calls: "calls (snd (invoke ev f w)) = calls w @ [ev]"
  by (simp add: invoke_def split: prod.splits)

lemma runHook_cases:
  assumes "runHook h st m w = (r, w')"
  shows "(\<exists>e. r = Inl e \<and> (calls w' = calls w @ [CallParse (hook.name h)]
                          \<or> calls w' = calls w @ [CallParse (hook.name h), CallHandler (hook.name h)]))
       \<or> (\<exists>v. r = Inr (True, v) \<and> calls w' = calls w @ [CallParse (hook.name h), CallHandler (hook.name h)])
       \<or> (r = Inr (False, Undefined) \<and> calls w' = calls w @ [CallParse (hook.name h)])"
  using assms
  by (auto simp: runHook_def invoke_def split: prod.splits sum.splits option.splits)

lemma localLoop_calls:
  assumes "localLoop hs st m acc w = (r, w')"
  shows "\<exists>tried ran. prefix tried (map hook.name hs)
           \<and> calls w' = calls w @ map CallParse tried @ (if ran then [CallHandler (last tried)] else [])
           \<and> (ran \<longrightarrow> tried \<noteq> [])
           \<and> (\<not> fst acc \<longrightarrow> (\<forall>v. r = Inr (True, v) \<longrightarrow> ran))
           \<and> (\<not> fst acc \<longrightarrow> (\<forall>v. r = Inr (False, v) \<longrightarrow> tried = map hook.name hs \<and> \<not> ran))"
  using assms
proof (induction hs arbitrary: w acc)
  case Nil
  then show ?case by (intro exI[of _ "[]"] exI[of _ False]) (cases acc; auto)
next
  case (Cons h hs)
  obtain r1 w1 where rh: "runHook h st m w = (r1, w1)" by (cases "runHook h st m w")
  from runHook_cases [OF rh] consider
      (err1) e where "r1 = Inl e" "calls w1 = calls w @ [CallParse (hook.name h)]"
    | (err2) e where "r1 = Inl e" "calls w1 = calls w @ [CallParse (hook.name h), CallHandler (hook.name h)]"
    | (hit) v where "r1 = Inr (True, v)" "calls w1 = calls w @ [CallParse (hook.name h), CallHandler (hook.name h)]"
    | (miss) "r1 = Inr (False, Undefined)" "calls w1 = calls w @ [CallParse (hook.name h)]"
    by blast
  then show ?case
  proof cases
    case err1
    with Cons.prems rh show ?thesis
      by (intro exI[of _ "[hook.name h]"] exI[of _ False]) auto
  next
    case err2
    with Cons.prems rh show ?thesis
      by (intro exI[of _ "[hook.name h]"] exI[of _ True]) auto
  next
    case hit
    with Cons.prems rh show ?thesis
      by (intro exI[of _ "[hook.name h]"] exI[of _ True]) auto
  next
    case miss
    with Cons.prems rh have rest: "localLoop hs st m (False, Undefined) w1 = (r, w')" by simp
    from Cons.IH [OF rest] obtain tried ran where
      ih: "prefix tried (map hook.name hs)"
          "calls w' = calls w1 @ map CallParse tried @ (if ran then [CallHandler (last tried)] else [])"
          "ran \<longrightarrow> tried \<noteq> []"
          "\<forall>v. r = Inr (True, v) \<longrightarrow> ran"
          "\<forall>v. r = Inr (False, v) \<longrightarrow> tried = map hook.name hs \<and> \<not> ran"
      by auto
    show ?thesis
      using ih miss(2)
      by (intro exI[of _ "hook.name h # tried"] exI[of _ ran]) auto
  qed
qed

lemma globalLoop_calls:
  assumes "globalLoop hs ctx gc sess m acc w = (r, w')"
  shows "\<exists>tried ran. subseq tried (map hook.name hs)
           \<and> calls w' = calls w @ map CallParse tried @ (if ran then [CallHandler (last tried)] else [])
           \<and> (ran \<longrightarrow> tried \<noteq> [])
           \<and> (\<not> fst acc \<longrightarrow> (\<forall>v. r = Inr (True, v) \<longrightarrow> ran))
           \<and> (\<not> fst acc \<longrightarrow> (\<forall>v. r = Inr (False, v) \<longrightarrow> \<not> ran))"
  using assms
proof (induction hs arbitrary: w acc)
  case Nil
  then show ?case by (intro exI[of _ "[]"] exI[of _ False]) (cases acc; auto)
next
  case (Cons h hs)
  show ?case
  proof (cases "hookCondition ctx h w")
    case False
    with Cons.prems have rest: "globalLoop hs ctx gc sess m acc w = (r, w')" by simp
    from Cons.IH [OF rest] obtain tried ran where
      ih: "subseq tried (map hook.name hs)"
          "calls w' = calls w @ map CallParse tried @ (if ran then [CallHandler (last tried)] else [])"
          "ran \<longrightarrow> tried \<noteq> []"
          "\<not> fst acc \<longrightarrow> (\<forall>v. r = Inr (True, v) \<longrightarrow> ran)"
          "\<not> fst acc \<longrightarrow> (\<forall>v. r = Inr (False, v) \<longrightarrow> \<not> ran)"
      by auto
    then show ?thesis
      by (intro exI[of _ tried] exI[of _ ran]) auto
  next
    case True
    let ?st = "\<lparr>context = Some (case ctx of Some c \<Rightarrow> c | None \<Rightarrow> gc), session = sess\<rparr>"
    obtain r1 w1 where rh: "runHook h ?st m w = (r1, w1)" by (cases "runHook h ?st m w")
    from runHook_cases [OF rh] consider
        (err1) e where "r1 = Inl e" "calls w1 = calls w @ [CallParse (hook.name h)]"
      | (err2) e where "r1 = Inl e" "calls w1 = calls w @ [CallParse (hook.name h), CallHandler (hook.name h)]"
      | (hit) v where "r1 = Inr (True, v)" "calls w1 = calls w @ [CallParse (hook.name h), CallHandler (hook.name h)]"
      | (miss) "r1 = Inr (False, Undefined)" "calls w1 = calls w @ [CallParse (hook.name h)]"
      by blast
    then show ?thesis
    proof cases
      case err1
      with Cons.prems rh True show ?thesis
        by (intro exI[of _ "[hook.name h]"] exI[of _ False]) auto
    next
      case err2
      with Cons.prems rh True show ?thesis
        by (intro exI[of _ "[hook.name h]"] exI[of _ True]) auto
    next
      case hit
      with Cons.prems rh True show ?thesis
        by (intro exI[of _ "[hook.name h]"] exI[of _ True]) auto
    next
      case miss
      with Cons.prems rh True have rest: "globalLoop hs ctx gc sess m (False, Undefined) w1 = (r, w')" by simp
      from Cons.IH [OF rest] obtain tried ran where
        ih: "subseq tried (map hook.name hs)"
            "calls w' = calls w1 @ map CallParse tried @ (if ran then [CallHandler (last tried)] else [])"
            "ran \<longrightarrow> tried \<noteq> []"
            "\<forall>v. r = Inr (True, v) \<longrightarrow> ran"
            "\<forall>v. r = Inr (False, v) \<longrightarrow> \<not> ran"
        by auto
      show ?thesis
        using ih miss(2)
        by (intro exI[of _ "hook.name h # tried"] exI[of _ ran]) auto
    qed
  qed
qed


lemma localLoop_append:
  "\<not> fst acc \<Longrightarrow>
   localLoop (xs @ ys) st m acc w =
     (case localLoop xs st m acc w of
        (Inl e, w1) \<Rightarrow> (Inl e, w1)
      | (Inr (handled, v), w1) \<Rightarrow>
          if handled then (Inr (handled, v), w1) else localLoop ys st m (handled, v) w1)"
proof (induction xs arbitrary: w acc)
  case Nil
  then show ?case by (cases acc) auto
next
  case (Cons x xs)
  then show ?case
    by (auto split: prod.splits sum.splits)
qed

lemma globalLoop_append:
  "\<not> fst acc \<Longrightarrow>
   globalLoop (xs @ ys) ctx gc sess m acc w =
     (case globalLoop xs ctx gc sess m acc w of
        (Inl e, w1) \<Rightarrow> (Inl e, w1)
      | (Inr (handled, v), w1) \<Rightarrow>
          if handled then (Inr (handled, v), w1) else globalLoop ys ctx gc sess m (handled, v) w1)"
proof (induction xs arbitrary: w acc)
  case Nil
  then show ?case by (cases acc) auto
next
  case (Cons x xs)
  then show ?case
    by (auto split: prod.splits sum.splits)
qed

lemma localPhase_active:
  assumes "activeContext yak w = Some c" and "topic (heap w c) = Some tn" and "findTopic tn topics = Some t"
  shows "localPhase sess m yak topics w =
           localLoop (hooks t) \<lparr>context = Some c, session = sess\<rparr> m (False, Undefined) w"
    and "currentHooks yak topics w = hooks t"
  using assms by (simp_all add: localPhase_def currentHooks_def)

lemma localPhase_idle:
  assumes "activeContext yak w = None"
  shows "localPhase sess m yak topics w = (Inr (False, Undefined), w)"
    and "currentHooks yak topics w = []"
  using assms by (simp_all add: localPhase_def currentHooks_def)

lemma localPhase_calls:
  assumes "localPhase sess m yak topics w = (r, w')"
  shows "\<exists>tried ran. prefix tried (map hook.name (currentHooks yak topics w))
           \<and> calls w' = calls w @ map CallParse tried @ (if ran then [CallHandler (last tried)] else [])
           \<and> (ran \<longrightarrow> tried \<noteq> [])
           \<and> (\<forall>v. r = Inr (True, v) \<longrightarrow> ran)
           \<and> (\<forall>v. r = Inr (False, v) \<longrightarrow> tried = map hook.name (currentHooks yak topics w) \<and> \<not> ran)"
proof (cases "activeContext yak w")
  case None
  with assms show ?thesis
    by (intro exI[of _ "[]"] exI[of _ False]) (auto simp: localPhase_def currentHooks_def)
next
  case (Some c)
  show ?thesis
  proof (cases "topic (heap w c)")
    case None
    with assms Some show ?thesis
      by (intro exI[of _ "[]"] exI[of _ False]) (auto simp: localPhase_def currentHooks_def)
  next
    case tn: (Some tn)
    show ?thesis
    proof (cases "findTopic tn topics")
      case None
      with assms Some tn show ?thesis
        by (intro exI[of _ "[]"] exI[of _ False]) (auto simp: localPhase_def currentHooks_def)
    next
      case t: (Some t)
      note lp1 = localPhase_active(1) [OF Some tn t, of sess m]
      note lp2 = localPhase_active(2) [OF Some tn t]
      from assms have "localLoop (hooks t) \<lparr>context = Some c, session = sess\<rparr> m (False, Undefined) w = (r, w')"
        by (simp add: lp1)
      from localLoop_calls [OF this] show ?thesis
        unfolding lp2 by simp
    qed
  qed
qed

lemma dispatch_unhandled_prefix:
  assumes ac: "activeContext yak w = ctx"
      and lp: "localPhase sess m yak topics w = (Inr (False, v), w1)"
      and g: "globalTopic = Some g"
      and hs: "hooks g = pre @ rest"
      and pre: "globalLoop pre ctx gc sess m (False, v) w1 = (Inr (False, v'), w2)"
  shows "dispatch sess m yak topics globalTopic gc w = globalLoop rest ctx gc sess m (False, v') w2"
  using assms by (simp add: dispatch_def globalPhase_def globalLoop_append Let_def)

lemma processMessage_dispatch:
  "processMessage sess m yak topics globalTopic gc w =
     (case dispatch sess m yak topics globalTopic gc w of
        (Inl e, w1) \<Rightarrow> (Inl e, w1)
      | (Inr (handled, r), w1) \<Rightarrow> (Inr (if truthy r then concat_js r else []), w1))"
  by (simp add: processMessage_def)

lemma processMessage_calls:
  "calls (snd (processMessage sess m yak topics globalTopic gc w)) =
   calls (snd (dispatch sess m yak topics globalTopic gc w))"
  by (simp add: processMessage_def split: prod.splits sum.splits)

lemma dispatch_shape:
  assumes run: "dispatch sess m yak topics globalTopic gc w = (r, w')"
  shows "\<exists>ls gs ran.
           prefix ls (map hook.name (currentHooks yak topics w))
         \<and> subseq gs (map hook.name (case globalTopic of None \<Rightarrow> [] | Some g \<Rightarrow> hooks g))
         \<and> (gs \<noteq> [] \<longrightarrow> ls = map hook.name (currentHooks yak topics w))
         \<and> calls w' = calls w @ map CallParse (ls @ gs) @ (if ran then [CallHandler (last (ls @ gs))] else [])
         \<and> (ran \<longrightarrow> ls @ gs \<noteq> [])"
proof -
  obtain r1 w1 where lp: "localPhase sess m yak topics w = (r1, w1)"
    by (cases "localPhase sess m yak topics w")
  from localPhase_calls [OF lp] obtain ls ran where
    l: "prefix ls (map hook.name (currentHooks yak topics w))"
       "calls w1 = calls w @ map CallParse ls @ (if ran then [CallHandler (last ls)] else [])"
       "ran \<longrightarrow> ls \<noteq> []"
       "\<forall>v. r1 = Inr (True, v) \<longrightarrow> ran"
       "\<forall>v. r1 = Inr (False, v) \<longrightarrow> ls = map hook.name (currentHooks yak topics w) \<and> \<not> ran"
    by auto
  show ?thesis
  proof (cases r1)
    case (Inl e)
    with run lp have "r = Inl e" "w' = w1" by (simp_all add: dispatch_def)
    with l show ?thesis
      by (intro exI[of _ ls] exI[of _ "[]"] exI[of _ ran]) auto
  next
    case (Inr acc)
    obtain handled v where acc: "acc = (handled, v)" by (cases acc)
    show ?thesis
    proof (cases handled)
      case True
      with run lp Inr acc have "r = Inr (True, v)" "w' = w1"
        by (simp_all add: dispatch_def globalPhase_def)
      with l Inr acc True show ?thesis
        by (intro exI[of _ ls] exI[of _ "[]"] exI[of _ ran]) auto
    next
      case False
      with l Inr acc have all: "ls = map hook.name (currentHooks yak topics w)" "\<not> ran" by auto
      show ?thesis
      proof (cases globalTopic)
        case None
        with run lp Inr acc False have "r = Inl TypeError" "w' = w1"
          by (simp_all add: dispatch_def globalPhase_def)
        with l all show ?thesis
          by (intro exI[of _ ls] exI[of _ "[]"] exI[of _ False]) auto
      next
        case (Some g)
        with run lp Inr acc False
        have gl: "globalLoop (hooks g) (activeContext yak w) gc sess m (False, v) w1 = (r, w')"
          by (simp add: dispatch_def globalPhase_def Let_def)
        from globalLoop_calls [OF gl] obtain gs ran2 where
          g: "subseq gs (map hook.name (hooks g))"
             "calls w' = calls w1 @ map CallParse gs @ (if ran2 then [CallHandler (last gs)] else [])"
             "ran2 \<longrightarrow> gs \<noteq> []"
          by auto
        show ?thesis
          using g l(2) all Some
          by (intro exI[of _ ls] exI[of _ gs] exI[of _ ran2]) auto
      qed
    qed
  qed
qed

lemma runHook_hit:
  assumes "parse h st m w = (Inr (Some p), w2)"
  shows "runHook h st m w =
           (case invoke (CallHandler (hook.name h)) (handler h st p)
                   (w2\<lparr>calls := calls w @ [CallParse (hook.name h)]\<rparr>) of
              (Inl e, w3) \<Rightarrow> (Inl e, w3)
            | (Inr v, w3) \<Rightarrow> (Inr (True, v), w3))"
  using assms by (simp add: runHook_def invoke_def)

lemma local_first_match:
  assumes ctx: "activeContext yak w = Some c" "topic (heap w c) = Some tn" "findTopic tn topics = Some t"
      and hs: "hooks t = pre @ h # post"
      and pre: "localLoop pre \<lparr>context = Some c, session = sess\<rparr> m (False, Undefined) w =
                  (Inr (False, Undefined), w1)"
      and hit: "parse h \<lparr>context = Some c, session = sess\<rparr> m w1 = (Inr (Some p), w2)"
  shows "processMessage sess m yak topics globalTopic gc w =
           (case invoke (CallHandler (hook.name h)) (handler h \<lparr>context = Some c, session = sess\<rparr> p)
                   (w2\<lparr>calls := calls w @ map CallParse (map hook.name pre) @ [CallParse (hook.name h)]\<rparr>) of
              (Inl e, w3) \<Rightarrow> (Inl e, w3)
            | (Inr v, w3) \<Rightarrow> (Inr (if truthy v then concat_js v else []), w3))"
    and "calls (snd (processMessage sess m yak topics globalTopic gc w)) =
           calls w @ map CallParse (map hook.name pre) @ [CallParse (hook.name h), CallHandler (hook.name h)]"
proof -
  let ?st = "\<lparr>context = Some c, session = sess\<rparr>"
  from localLoop_calls [OF pre] have c1: "calls w1 = calls w @ map CallParse (map hook.name pre)"
    by auto
  have ll: "localLoop (hooks t) ?st m (False, Undefined) w = localLoop (h # post) ?st m (False, Undefined) w1"
    using pre by (simp add: hs localLoop_append)
  have rh: "runHook h ?st m w1 =
              (case invoke (CallHandler (hook.name h)) (handler h ?st p)
                      (w2\<lparr>calls := calls w @ map CallParse (map hook.name pre) @ [CallParse (hook.name h)]\<rparr>) of
                 (Inl e, w3) \<Rightarrow> (Inl e, w3)
               | (Inr v, w3) \<Rightarrow> (Inr (True, v), w3))"
    using runHook_hit [OF hit] c1 by simp
  show eq: "processMessage sess m yak topics globalTopic gc w =
           (case invoke (CallHandler (hook.name h)) (handler h ?st p)
                   (w2\<lparr>calls := calls w @ map CallParse (map hook.name pre) @ [CallParse (hook.name h)]\<rparr>) of
              (Inl e, w3) \<Rightarrow> (Inl e, w3)
            | (Inr v, w3) \<Rightarrow> (Inr (if truthy v then concat_js v else []), w3))"
    using ll rh localPhase_active(1) [OF ctx, of sess m]
    by (auto simp: processMessage_def dispatch_def globalPhase_def Let_def
             split: prod.splits sum.splits)
  show "calls (snd (processMessage sess m yak topics globalTopic gc w)) =
           calls w @ map CallParse (map hook.name pre) @ [CallParse (hook.name h), CallHandler (hook.name h)]"
    unfolding eq by (auto simp: invoke_def split: prod.splits sum.splits)
qed

lemma global_skip:
  assumes ac: "activeContext yak w = ctx"
      and lp: "localPhase sess m yak topics w = (Inr (False, Undefined), w1)"
      and g: "globalTopic = Some g"
      and hs: "hooks g = pre @ h # post"
      and pre: "globalLoop pre ctx gc sess m (False, Undefined) w1 = (Inr (False, Undefined), w2)"
      and no: "\<not> hookCondition ctx h w2"
  shows "processMessage sess m yak topics globalTopic gc w =
           (case globalLoop post ctx gc sess m (False, Undefined) w2 of
              (Inl e, w') \<Rightarrow> (Inl e, w')
            | (Inr (handled, r), w') \<Rightarrow> (Inr (if truthy r then concat_js r else []), w'))"
  using dispatch_unhandled_prefix [OF ac lp g hs pre] no
  by (simp add: processMessage_dispatch)

lemma global_run:
  assumes ac: "activeContext yak w = ctx"
      and lp: "localPhase sess m yak topics w = (Inr (False, Undefined), w1)"
      and g: "globalTopic = Some g"
      and hs: "hooks g = pre @ h # post"
      and pre: "globalLoop pre ctx gc sess m (False, Undefined) w1 = (Inr (False, Undefined), w2)"
      and yes: "hookCondition ctx h w2"
  shows "processMessage sess m yak topics globalTopic gc w =
           (case runHook h \<lparr>context = Some (case ctx of Some c \<Rightarrow> c | None \<Rightarrow> gc), session = sess\<rparr> m w2 of
              (Inl e, w') \<Rightarrow> (Inl e, w')
            | (Inr (handled, r), w') \<Rightarrow>
                if handled then (Inr (if truthy r then concat_js r else []), w')
                else (case globalLoop post ctx gc sess m (handled, r) w' of
                        (Inl e, w'') \<Rightarrow> (Inl e, w'')
                      | (Inr (handled', r'), w'') \<Rightarrow> (Inr (if truthy r' then concat_js r' else []), w'')))"
  using dispatch_unhandled_prefix [OF ac lp g hs pre] yes
  by (auto simp: processMessage_dispatch split: prod.splits sum.splits)

lemma global_first_match:
  assumes ac: "activeContext yak w = ctx"
      and lp: "localPhase sess m yak topics w = (Inr (False, Undefined), w1)"
      and g: "globalTopic = Some g"
      and hs: "hooks g = pre @ h # post"
      and pre: "globalLoop pre ctx gc sess m (False, Undefined) w1 = (Inr (False, Undefined), w2)"
      and yes: "hookCondition ctx h w2"
      and hit: "parse h \<lparr>context = Some (case ctx of Some c \<Rightarrow> c | None \<Rightarrow> gc), session = sess\<rparr> m w2 =
                  (Inr (Some p), w3)"
  shows "processMessage sess m yak topics globalTopic gc w =
           (case invoke (CallHandler (hook.name h))
                   (handler h \<lparr>context = Some (case ctx of Some c \<Rightarrow> c | None \<Rightarrow> gc), session = sess\<rparr> p)
                   (w3\<lparr>calls := calls w2 @ [CallParse (hook.name h)]\<rparr>) of
              (Inl e, w4) \<Rightarrow> (Inl e, w4)
            | (Inr v, w4) \<Rightarrow> (Inr (if truthy v then concat_js v else []), w4))"
    and "calls (snd (processMessage sess m yak topics globalTopic gc w)) =
           calls w2 @ [CallParse (hook.name h), CallHandler (hook.name h)]"
    and "\<exists>gs. subseq gs (map hook.name pre)
             \<and> calls w2 = calls w @ map CallParse (map hook.name (currentHooks yak topics w) @ gs)"
proof -
  let ?st = "\<lparr>context = Some (case ctx of Some c \<Rightarrow> c | None \<Rightarrow> gc), session = sess\<rparr>"
  show eq: "processMessage sess m yak topics globalTopic gc w =
           (case invoke (CallHandler (hook.name h)) (handler h ?st p)
                   (w3\<lparr>calls := calls w2 @ [CallParse (hook.name h)]\<rparr>) of
              (Inl e, w4) \<Rightarrow> (Inl e, w4)
            | (Inr v, w4) \<Rightarrow> (Inr (if truthy v then concat_js v else []), w4))"
    unfolding global_run [OF ac lp g hs pre yes] runHook_hit [OF hit]
    by (auto split: prod.splits sum.splits)
  show "calls (snd (processMessage sess m yak topics globalTopic gc w)) =
           calls w2 @ [CallParse (hook.name h), CallHandler (hook.name h)]"
    unfolding eq by (auto simp: invoke_def split: prod.splits sum.splits)
  from localPhase_calls [OF lp]
  have c1: "calls w1 = calls w @ map CallParse (map hook.name (currentHooks yak topics w))"
    by auto
  from globalLoop_calls [OF pre] obtain gs where
    "subseq gs (map hook.name pre)" "calls w2 = calls w1 @ map CallParse gs"
    by auto
  with c1 show "\<exists>gs. subseq gs (map hook.name pre)
             \<and> calls w2 = calls w @ map CallParse (map hook.name (currentHooks yak topics w) @ gs)"
    by (intro exI[of _ gs]) simp
qed

lemma runHook_result:
  assumes "runHook h st m w = (Inr (b, v), w')"
  shows "(b \<longrightarrow> (\<exists>p w0 w2. handler h st p w0 = (Inr v, w2))) \<and> (\<not> b \<longrightarrow> v = Undefined)"
  using assms
  by (auto simp: runHook_def invoke_def split: prod.splits sum.splits option.splits)

lemma localLoop_result:
  assumes "localLoop hs st m acc w = (Inr (b, v), w')" and "acc = (False, Undefined)"
  shows "(b \<longrightarrow> (\<exists>h \<in> set hs. \<exists>p w0 w2. handler h st p w0 = (Inr v, w2))) \<and> (\<not> b \<longrightarrow> v = Undefined)"
  using assms
proof (induction hs arbitrary: w acc)
  case Nil
  then show ?case by simp
next
  case (Cons h hs)
  obtain r1 w1 where rh: "runHook h st m w = (r1, w1)" by (cases "runHook h st m w")
  show ?case
  proof (cases r1)
    case (Inl e)
    with Cons.prems rh show ?thesis by simp
  next
    case (Inr x)
    obtain b1 v1 where x: "x = (b1, v1)" by (cases x)
    from runHook_result [of h st m w b1 v1 w1] rh Inr x
    have r: "(b1 \<longrightarrow> (\<exists>p w0 w2. handler h st p w0 = (Inr v1, w2))) \<and> (\<not> b1 \<longrightarrow> v1 = Undefined)"
      by simp
    show ?thesis
    proof (cases b1)
      case True
      with Cons.prems rh Inr x have "b" "v = v1" by simp_all
      with r True show ?thesis by auto
    next
      case False
      with r have v1: "v1 = Undefined" by simp
      from Cons.prems rh Inr x False v1
      have rest: "localLoop hs st m (False, Undefined) w1 = (Inr (b, v), w')" by simp
      from Cons.IH [OF rest] show ?thesis by auto
    qed
  qed
qed

lemma globalLoop_result:
  assumes "globalLoop hs ctx gc sess m acc w = (Inr (b, v), w')" and "acc = (False, Undefined)"
  shows "(b \<longrightarrow> (\<exists>h \<in> set hs. \<exists>st p w0 w2. handler h st p w0 = (Inr v, w2))) \<and> (\<not> b \<longrightarrow> v = Undefined)"
  using assms
proof (induction hs arbitrary: w acc)
  case Nil
  then show ?case by simp
next
  case (Cons h hs)
  show ?case
  proof (cases "hookCondition ctx h w")
    case False
    with Cons.prems have rest: "globalLoop hs ctx gc sess m acc w = (Inr (b, v), w')" by simp
    from Cons.IH [OF rest Cons.prems(2)] show ?thesis by auto
  next
    case True
    let ?st = "\<lparr>context = Some (case ctx of Some c \<Rightarrow> c | None \<Rightarrow> gc), session = sess\<rparr>"
    obtain r1 w1 where rh: "runHook h ?st m w = (r1, w1)" by (cases "runHook h ?st m w")
    show ?thesis
    proof (cases r1)
      case (Inl e)
      with Cons.prems rh True show ?thesis by simp
    next
      case (Inr x)
      obtain b1 v1 where x: "x = (b1, v1)" by (cases x)
      from runHook_result [of h ?st m w b1 v1 w1] rh Inr x
      have r: "(b1 \<longrightarrow> (\<exists>p w0 w2. handler h ?st p w0 = (Inr v1, w2))) \<and> (\<not> b1 \<longrightarrow> v1 = Undefined)"
        by simp
      show ?thesis
      proof (cases b1)
        case T: True
        with Cons.prems rh Inr x True have "b" "v = v1" by simp_all
        with r T show ?thesis by auto
      next
        case F: False
        with r have v1: "v1 = Undefined" by simp
        from Cons.prems rh Inr x F v1 True
        have rest: "globalLoop hs ctx gc sess m (False, Undefined) w1 = (Inr (b, v), w')" by simp
        from Cons.IH [OF rest] show ?thesis by auto
      qed
    qed
  qed
qed

lemma dispatch_result:
  assumes "dispatch sess m yak topics globalTopic gc w = (Inr (b, v), w')"
  shows "(b \<longrightarrow> (\<exists>h \<in> set (currentHooks yak topics w @ (case globalTopic of None \<Rightarrow> [] | Some g \<Rightarrow> hooks g)).
                 \<exists>st p w0 w2. handler h st p w0 = (Inr v, w2)))
       \<and> (\<not> b \<longrightarrow> v = Undefined)"
proof -
  obtain r1 w1 where lp: "localPhase sess m yak topics w = (r1, w1)"
    by (cases "localPhase sess m yak topics w")
  from assms lp obtain b1 v1 where r1: "r1 = Inr (b1, v1)"
    by (cases r1) (auto simp: dispatch_def)
  have l: "(b1 \<longrightarrow> (\<exists>h \<in> set (currentHooks yak topics w). \<exists>st p w0 w2. handler h st p w0 = (Inr v1, w2)))
           \<and> (\<not> b1 \<longrightarrow> v1 = Undefined)"
  proof (cases "activeContext yak w")
    case None
    with lp r1 show ?thesis by (simp add: localPhase_def)
  next
    case (Some c)
    with lp r1 obtain n t where nt: "topic (heap w c) = Some n" "findTopic n topics = Some t"
      and ll: "localLoop (hooks t) \<lparr>context = Some c, session = sess\<rparr> m (False, Undefined) w = (Inr (b1, v1), w1)"
      by (auto simp: localPhase_def split: option.splits)
    have ch: "currentHooks yak topics w = hooks t"
      using Some nt by (simp add: currentHooks_def)
    from localLoop_result [OF ll] show ?thesis
      unfolding ch by blast
  qed
  show ?thesis
  proof (cases b1)
    case True
    with assms lp r1 have bv: "b" "v = v1" by (simp_all add: dispatch_def globalPhase_def)
    from l True obtain h st p w0 w2 where
      h: "h \<in> set (currentHooks yak topics w)" "handler h st p w0 = (Inr v1, w2)"
      by blast
    from h(1) have "h \<in> set (currentHooks yak topics w @ (case globalTopic of None \<Rightarrow> [] | Some g \<Rightarrow> hooks g))"
      by simp
    with h(2) bv show ?thesis by blast
  next
    case False
    with l have v1: "v1 = Undefined" by simp
    from assms lp r1 False obtain g where g: "globalTopic = Some g"
      and gl: "globalLoop (hooks g) (activeContext yak w) gc sess m (False, Undefined) w1 = (Inr (b, v), w')"
      by (cases globalTopic) (auto simp: dispatch_def globalPhase_def v1 Let_def)
    from globalLoop_result [OF gl] have
      gr: "(b \<longrightarrow> (\<exists>h \<in> set (hooks g). \<exists>st p w0 w2. handler h st p w0 = (Inr v, w2))) \<and> (\<not> b \<longrightarrow> v = Undefined)"
      by simp
    show ?thesis
    proof (cases b)
      case True
      with gr obtain h st p w0 w2 where
        h: "h \<in> set (hooks g)" "handler h st p w0 = (Inr v, w2)"
        by blast
      from h(1) g have "h \<in> set (currentHooks yak topics w @ (case globalTopic of None \<Rightarrow> [] | Some g \<Rightarrow> hooks g))"
        by simp
      with h(2) True show ?thesis by blast
    next
      case False
      with gr show ?thesis by simp
    qed
  qed
qed

lemma patternLoop_first:
  assumes "k < length ps" and "(ps ! k) (text msg) = Some mt" and "\<forall>j<k. (ps ! j) (text msg) = None"
  shows "patternLoop ps k0 msg = Some \<lparr>pr_message = msg, pr_i = k0 + k, pr_matches = mt\<rparr>"
  using assms
proof (induction ps arbitrary: k k0)
  case Nil
  then show ?case by simp
next
  case (Cons p ps)
  show ?case
  proof (cases k)
    case 0
    with Cons.prems show ?thesis by simp
  next
    case (Suc k')
    with Cons.prems have head: "p (text msg) = None" by auto
    from Suc Cons.prems have "k' < length ps" "(ps ! k') (text msg) = Some mt" "\<forall>j<k'. (ps ! j) (text msg) = None"
      by auto
    from Cons.IH [OF this, of "Suc k0"] head Suc show ?thesis by simp
  qed
qed

lemma singleLoop_snoc:
  "singleLoop (ms @ [m]) fmt sess yak topics g gc results w =
     (case singleLoop ms fmt sess yak topics g gc results w of
        (Inl e, w1) \<Rightarrow> (Inl e, w1)
      | (Inr earlier, w1) \<Rightarrow>
          (case fmt of
             None \<Rightarrow> (Inl TypeError, w1)
           | Some f \<Rightarrow> processMessage sess (parseIncomingMessage f (Some m)) yak topics g gc w1))"
proof (induction ms arbitrary: results w)
  case Nil
  then show ?case by (auto split: option.splits prod.splits sum.splits)
next
  case (Cons a ms)
  then show ?case by (auto split: option.splits prod.splits sum.splits)
qed


lemma strategySwitch_Single_snoc:
  "strategySwitch Single (ms @ [m]) fmt sess yak topics g gc w =
     (case singleLoop ms fmt sess yak topics g gc [] w of
        (Inl e, w1) \<Rightarrow> (Inl e, w1)
      | (Inr earlier, w1) \<Rightarrow>
          (case fmt of
             None \<Rightarrow> (Inl TypeError, w1)
           | Some f \<Rightarrow> processMessage sess (parseIncomingMessage f (Some m)) yak topics g gc w1))"
  by (simp add: strategySwitch_def singleLoop_snoc)

lemma init_handler_Single:
  assumes "messageOptions options = Some Single"
      and "init_handler allTopics options fb web sess (Batch batch) w = (Inr out, w')"
  shows "\<exists>w0 w2.
           strategySwitch Single batch (formatters fb web (ext_type sess)) sess
             (fst (loadSession ((case getSessionId options of Some f \<Rightarrow> f | None \<Rightarrow> ext_id) sess)
                               ((case getSessionType options of Some f \<Rightarrow> f | None \<Rightarrow> ext_type) sess) w))
             (filter (\<lambda>t. topic.name t \<noteq> ''global'') allTopics) (findTopic ''global'' allTopics)
             (nextRef (snd (loadSession ((case getSessionId options of Some f \<Rightarrow> f | None \<Rightarrow> ext_id) sess)
                               ((case getSessionType options of Some f \<Rightarrow> f | None \<Rightarrow> ext_type) sess) w)))
             w0 = (Inr out, w2)
         \<and> w' = libSession_save
                  (fst (loadSession ((case getSessionId options of Some f \<Rightarrow> f | None \<Rightarrow> ext_id) sess)
                               ((case getSessionType options of Some f \<Rightarrow> f | None \<Rightarrow> ext_type) sess) w))
                  w2"
  using assms
  by (auto simp: init_handler_def alloc_def Let_def split: prod.splits sum.splits)

text \<open>
  The handler works on a copy of the loaded session (object 3 below) that shares the
  array of contexts with the loaded object 0, to which the loaded contexts refer. A
  non-root entry made by a hook pushes on the shared array and is seen by the handler; a
  root entry assigns a new array to object 0 and is not: the session saved keeps the old
  stack.
\<close>

lemma loaded_session_shares_array_only:
  "store (snd (init_handler [mainGoTopic, emptyGlobal] defaultOptions textFormatter textFormatter webUser
          (One ''push'') savedWorld)) ''u1'' = Some 3
   \<and> contextsOf 3 (snd (init_handler [mainGoTopic, emptyGlobal] defaultOptions textFormatter textFormatter
          webUser (One ''push'') savedWorld)) = [2, 5]
   \<and> store (snd (init_handler [mainGoTopic, emptyGlobal] defaultOptions textFormatter textFormatter webUser
          (One ''go'') savedWorld)) ''u1'' = Some 3
   \<and> contextsOf 3 (snd (init_handler [mainGoTopic, emptyGlobal] defaultOptions textFormatter textFormatter
          webUser (One ''go'') savedWorld)) = [2]
   \<and> contextsOf 0 (snd (init_handler [mainGoTopic, emptyGlobal] defaultOptions textFormatter textFormatter
          webUser (One ''go'') savedWorld)) = [5]"
  by (simp add: init_handler_def loadSession_def bootstrap_def strategySwitch_def enterTopic_def
        processMessage_def dispatch_def localPhase_def globalPhase_def runHook_def invoke_def
        invokeExt_def alloc_def allocArray_def allocSession_def resetContexts_def pushContext_def
        activeContext_def contextsOf_def findTopic_def formatters_def libSession_get_def
        libSession_save_def hookCondition_def mainGoTopic_def emptyGlobal_def goHook_def pushHook_def
        rootTopic_def childTopic_def stubTopic_def defTopic_def defPattern_def literal_def
        defaultOptions_def textFormatter_def webUser_def savedWorld_def mainWorld_def emptyWorld_def
        blankContext_def blankSession_def Let_def)

section \<open>Context stack discipline\<close>

text \<open>
  C1. A call of \<open>enterTopic\<close> or \<open>exitTopic\<close> whose caller state names a context that is
  not the top of the non-empty stack of its session fails with the stack discipline error,
  and the whole state is the one before the call: the stack is unchanged, and no user
  function has been called (the log is unchanged, so \<open>init\<close> has not run and no context was
  built).
\<close>

theorem stale_caller_rejected:
  assumes "context st = Some c"
      and "contextsOf (yakSession (heap w c)) w \<noteq> []"
      and "c \<noteq> last (contextsOf (yakSession (heap w c)) w)"
  shows "enterTopic topic' st newTopic args cb' w =
           (Inl (StackDisciplineError ''You can only enter a new context from the last context.''), w)
       \<and> exitTopic run_cb topic'' st args' w =
           (Inl (StackDisciplineError ''You can only exit from the current context.''), w)"
  using assms by (auto simp: enterTopic_def exitTopic_def activeContext_alt Let_def)

theorem stale_caller_rejected_witness:
  "enterTopic (Some rootTopic) \<lparr>context = Some 2, session = webUser\<rparr> childTopic Undefined None nestedWorld =
     (Inl (StackDisciplineError ''You can only enter a new context from the last context.''), nestedWorld)
   \<and> exitTopic echo_cb (Some rootTopic) \<lparr>context = Some 2, session = webUser\<rparr> Undefined nestedWorld =
     (Inl (StackDisciplineError ''You can only exit from the current context.''), nestedWorld)"
  using stale_caller_rejected [of "\<lparr>context = Some 2, session = webUser\<rparr>" 2 nestedWorld "Some rootTopic" childTopic
              Undefined None echo_cb "Some rootTopic" Undefined]
  by (simp add: nestedWorld_def emptyWorld_def contextsOf_def blankContext_def blankSession_def)

text \<open>
  C2, as amended. Entering a root topic from an admitted caller state, once \<open>init\<close> has
  returned: \<open>enterTopic\<close> installs on the caller's session the stack holding the newly built
  context alone (length 1). That state \<open>w3\<close> is the one \<open>afterInit\<close> is started on; it is the
  state when the call returns for a topic without \<open>afterInit\<close>, and the stack is still that
  one when \<open>afterInit\<close> leaves it alone. Whatever the outcome, the calls the engine makes
  are \<open>init\<close> and, when present, \<open>afterInit\<close>: no continuation of a discarded context is
  invoked.
\<close>

theorem enterTopic_root_installs_single_context:
  assumes "context st = Some c"
      and "contextsOf (yakSession (heap w c)) w = [] \<or> c = last (contextsOf (yakSession (heap w c)) w)"
      and "isRoot newTopic"
      and "init newTopic args (session st) (extern w) = (Inr d, u')"
  shows "(let yak = yakSession (heap w c);
              newContext = \<lparr>data = d, topic = Some (topic.name newTopic),
                            parentTopic = map_option topic.name topic', yakSession = yak,
                            activeHooks = [], disabledHooks = [], cb = cb'\<rparr>;
              w3 = resetContexts yak (nextRef w)
                     (w\<lparr>extern := u', calls := calls w @ [CallInit (topic.name newTopic)],
                        heap := (heap w)(nextRef w := newContext), nextRef := Suc (nextRef w)\<rparr>);
              st' = \<lparr>context = Some (nextRef w), session = session st\<rparr>
          in contextsOf yak w3 = [nextRef w]
           \<and> length (contextsOf yak w3) = 1
           \<and> activeContext yak w3 = Some (nextRef w)
           \<and> heap w3 (nextRef w) = newContext
           \<and> calls w3 = calls w @ [CallInit (topic.name newTopic)]
           \<and> enterTopic topic' st newTopic args cb' w =
                (case afterInit newTopic of
                   None \<Rightarrow> (Inr Undefined, w3)
                 | Some f \<Rightarrow>
                     (case invoke (CallAfterInit (topic.name newTopic)) (f st' (session st)) w3 of
                        (Inl e, w4) \<Rightarrow> (Inl e, w4)
                      | (Inr _, w4) \<Rightarrow> (Inr Undefined, w4)))
           \<and> (afterInit newTopic = None \<longrightarrow>
                 contextsOf yak (snd (enterTopic topic' st newTopic args cb' w)) = [nextRef w])
           \<and> (\<forall>f. afterInit newTopic = Some f
                    \<and> contextsOf yak (snd (f st' (session st) w3)) = contextsOf yak w3 \<longrightarrow>
                 contextsOf yak (snd (enterTopic topic' st newTopic args cb' w)) = [nextRef w])
           \<and> calls (snd (enterTopic topic' st newTopic args cb' w)) =
                calls w @ CallInit (topic.name newTopic) #
                  (case afterInit newTopic of None \<Rightarrow> [] | Some f \<Rightarrow> [CallAfterInit (topic.name newTopic)]))"
proof -
  let ?yak = "yakSession (heap w c)"
  let ?new = "\<lparr>data = d, topic = Some (topic.name newTopic),
                parentTopic = map_option topic.name topic', yakSession = ?yak,
                activeHooks = [], disabledHooks = [], cb = cb'\<rparr>"
  let ?w3 = "resetContexts ?yak (nextRef w)
               (w\<lparr>extern := u', calls := calls w @ [CallInit (topic.name newTopic)],
                  heap := (heap w)(nextRef w := ?new), nextRef := Suc (nextRef w)\<rparr>)"
  let ?st = "\<lparr>context = Some (nextRef w), session = session st\<rparr>"
  have run: "enterTopic topic' st newTopic args cb' w =
                (case afterInit newTopic of
                   None \<Rightarrow> (Inr Undefined, ?w3)
                 | Some f \<Rightarrow>
                     (case invoke (CallAfterInit (topic.name newTopic)) (f ?st (session st)) ?w3 of
                        (Inl e, w4) \<Rightarrow> (Inl e, w4)
                      | (Inr _, w4) \<Rightarrow> (Inr Undefined, w4)))"
    using enterTopic_admitted [OF assms(1,2,4), of topic' cb'] assms(3)
    by (simp add: Let_def)
  have stack: "contextsOf ?yak ?w3 = [nextRef w]"
    by (simp add: resetContexts_def allocArray_def contextsOf_def Let_def)
  have top: "activeContext ?yak ?w3 = Some (nextRef w)"
    by (simp add: activeContext_alt stack)
  have obj: "heap ?w3 (nextRef w) = ?new"
    by (simp add: resetContexts_def allocArray_def Let_def)
  have log: "calls ?w3 = calls w @ [CallInit (topic.name newTopic)]"
    by (simp add: resetContexts_def allocArray_def Let_def)
  have fin0: "afterInit newTopic = None \<longrightarrow>
                 contextsOf ?yak (snd (enterTopic topic' st newTopic args cb' w)) = [nextRef w]"
    unfolding run using stack by simp
  have fin1: "\<forall>f. afterInit newTopic = Some f
                    \<and> contextsOf ?yak (snd (f ?st (session st) ?w3)) = contextsOf ?yak ?w3 \<longrightarrow>
                 contextsOf ?yak (snd (enterTopic topic' st newTopic args cb' w)) = [nextRef w]"
    unfolding run using stack
    by (auto simp: invoke_def contextsOf_def split: prod.splits sum.splits)
  have calls: "calls (snd (enterTopic topic' st newTopic args cb' w)) =
                calls w @ CallInit (topic.name newTopic) #
                  (case afterInit newTopic of None \<Rightarrow> [] | Some f \<Rightarrow> [CallAfterInit (topic.name newTopic)])"
    unfolding run using log
    by (auto simp: invoke_def split: option.splits prod.splits sum.splits)
  show ?thesis
    unfolding Let_def using run stack top obj log fin0 fin1 calls by simp
qed

theorem enterTopic_root_installs_single_context_witness:
  "isRoot rootTopic
   \<and> contextsOf 0 (snd (enterTopic (Some childTopic) \<lparr>context = Some 3, session = webUser\<rparr>
       rootTopic (JStr ''x'') None nestedWorld)) = [4]
   \<and> calls (snd (enterTopic (Some childTopic) \<lparr>context = Some 3, session = webUser\<rparr>
       rootTopic (JStr ''x'') None nestedWorld)) = [CallInit ''home'']"
  using enterTopic_root_installs_single_context [of "\<lparr>context = Some 3, session = webUser\<rparr>" 3 nestedWorld rootTopic "JStr ''x''" "JStr ''x''" "()"
              "Some childTopic" None]
  by (simp add: nestedWorld_def emptyWorld_def rootTopic_def defTopic_def webUser_def contextsOf_def
                blankContext_def blankSession_def Let_def)

text \<open>
  The claim as stated fails for a root topic whose \<open>afterInit\<close> enters a child topic from
  the new context: the call succeeds and leaves a stack of two contexts.
\<close>

theorem root_afterInit_enters_child_counterexample:
  "isRoot homeThenChild
   \<and> contextsOf 0 nestedWorld = [2, 3]
   \<and> fst (enterTopic (Some childTopic) \<lparr>context = Some 3, session = webUser\<rparr>
          homeThenChild (JStr ''x'') None nestedWorld) = Inr Undefined
   \<and> contextsOf 0 (snd (enterTopic (Some childTopic) \<lparr>context = Some 3, session = webUser\<rparr>
          homeThenChild (JStr ''x'') None nestedWorld)) = [4, 6]"
  by (simp add: enterTopic_def invoke_def invokeExt_def alloc_def allocArray_def resetContexts_def
        pushContext_def activeContext_def contextsOf_def homeThenChild_def childTopic_def rootTopic_def
        defTopic_def nestedWorld_def emptyWorld_def blankContext_def blankSession_def webUser_def Let_def)



text \<open>
  C6, as amended. Entering a non-root topic from an admitted caller state, once \<open>init\<close>
  has returned: \<open>enterTopic\<close> pushes the newly built context on the stack of the caller's
  session, which is then one longer, with the new context active, its \<open>activeHooks\<close> and
  \<open>disabledHooks\<close> empty and its continuation the given one. That state \<open>w3\<close> is the one
  \<open>afterInit\<close> is started on; it is the state when the call returns for a topic without
  \<open>afterInit\<close>, and the stack is still that one when \<open>afterInit\<close> leaves it alone. Each
  call of a sequence is such a call.
\<close>

theorem enterTopic_nonroot_pushes:
  assumes "context st = Some c"
      and "contextsOf (yakSession (heap w c)) w = [] \<or> c = last (contextsOf (yakSession (heap w c)) w)"
      and "\<not> isRoot newTopic"
      and "init newTopic args (session st) (extern w) = (Inr d, u')"
  shows "(let yak = yakSession (heap w c);
              newContext = \<lparr>data = d, topic = Some (topic.name newTopic),
                            parentTopic = map_option topic.name topic', yakSession = yak,
                            activeHooks = [], disabledHooks = [], cb = cb'\<rparr>;
              w3 = pushContext yak (nextRef w)
                     (w\<lparr>extern := u', calls := calls w @ [CallInit (topic.name newTopic)],
                        heap := (heap w)(nextRef w := newContext), nextRef := Suc (nextRef w)\<rparr>);
              st' = \<lparr>context = Some (nextRef w), session = session st\<rparr>
          in contextsOf yak w3 = contextsOf (yakSession (heap w c)) w @ [nextRef w]
           \<and> length (contextsOf yak w3) = Suc (length (contextsOf (yakSession (heap w c)) w))
           \<and> activeContext yak w3 = Some (nextRef w)
           \<and> heap w3 (nextRef w) = newContext
           \<and> calls w3 = calls w @ [CallInit (topic.name newTopic)]
           \<and> enterTopic topic' st newTopic args cb' w =
                (case afterInit newTopic of
                   None \<Rightarrow> (Inr Undefined, w3)
                 | Some f \<Rightarrow>
                     (case invoke (CallAfterInit (topic.name newTopic)) (f st' (session st)) w3 of
                        (Inl e, w4) \<Rightarrow> (Inl e, w4)
                      | (Inr _, w4) \<Rightarrow> (Inr Undefined, w4)))
           \<and> (afterInit newTopic = None \<longrightarrow>
                 contextsOf yak (snd (enterTopic topic' st newTopic args cb' w)) = contextsOf (yakSession (heap w c)) w @ [nextRef w])
           \<and> (\<forall>f. afterInit newTopic = Some f
                    \<and> contextsOf yak (snd (f st' (session st) w3)) = contextsOf yak w3 \<longrightarrow>
                 contextsOf yak (snd (enterTopic topic' st newTopic args cb' w)) = contextsOf (yakSession (heap w c)) w @ [nextRef w])
           \<and> calls (snd (enterTopic topic' st newTopic args cb' w)) =
                calls w @ CallInit (topic.name newTopic) #
                  (case afterInit newTopic of None \<Rightarrow> [] | Some f \<Rightarrow> [CallAfterInit (topic.name newTopic)]))"
proof -
  let ?yak = "yakSession (heap w c)"
  let ?new = "\<lparr>data = d, topic = Some (topic.name newTopic),
                parentTopic = map_option topic.name topic', yakSession = ?yak,
                activeHooks = [], disabledHooks = [], cb = cb'\<rparr>"
  let ?w3 = "pushContext ?yak (nextRef w)
               (w\<lparr>extern := u', calls := calls w @ [CallInit (topic.name newTopic)],
                  heap := (heap w)(nextRef w := ?new), nextRef := Suc (nextRef w)\<rparr>)"
  let ?st = "\<lparr>context = Some (nextRef w), session = session st\<rparr>"
  have run: "enterTopic topic' st newTopic args cb' w =
                (case afterInit newTopic of
                   None \<Rightarrow> (Inr Undefined, ?w3)
                 | Some f \<Rightarrow>
                     (case invoke (CallAfterInit (topic.name newTopic)) (f ?st (session st)) ?w3 of
                        (Inl e, w4) \<Rightarrow> (Inl e, w4)
                      | (Inr _, w4) \<Rightarrow> (Inr Undefined, w4)))"
    using enterTopic_admitted [OF assms(1,2,4), of topic' cb'] assms(3)
    by (simp add: Let_def)
  have stack: "contextsOf ?yak ?w3 = contextsOf (yakSession (heap w c)) w @ [nextRef w]"
    by (simp add: pushContext_def allocArray_def contextsOf_def Let_def)
  have top: "activeContext ?yak ?w3 = Some (nextRef w)"
    by (simp add: activeContext_alt stack)
  have obj: "heap ?w3 (nextRef w) = ?new"
    by (simp add: pushContext_def allocArray_def Let_def)
  have log: "calls ?w3 = calls w @ [CallInit (topic.name newTopic)]"
    by (simp add: pushContext_def allocArray_def Let_def)
  have fin0: "afterInit newTopic = None \<longrightarrow>
                 contextsOf ?yak (snd (enterTopic topic' st newTopic args cb' w)) = contextsOf (yakSession (heap w c)) w @ [nextRef w]"
    unfolding run using stack by simp
  have fin1: "\<forall>f. afterInit newTopic = Some f
                    \<and> contextsOf ?yak (snd (f ?st (session st) ?w3)) = contextsOf ?yak ?w3 \<longrightarrow>
                 contextsOf ?yak (snd (enterTopic topic' st newTopic args cb' w)) = contextsOf (yakSession (heap w c)) w @ [nextRef w]"
    unfolding run using stack
    by (auto simp: invoke_def contextsOf_def split: prod.splits sum.splits)
  have calls: "calls (snd (enterTopic topic' st newTopic args cb' w)) =
                calls w @ CallInit (topic.name newTopic) #
                  (case afterInit newTopic of None \<Rightarrow> [] | Some f \<Rightarrow> [CallAfterInit (topic.name newTopic)])"
    unfolding run using log
    by (auto simp: invoke_def split: option.splits prod.splits sum.splits)
  show ?thesis
    unfolding Let_def using run stack top obj log fin0 fin1 calls by simp
qed

theorem enterTopic_nonroot_pushes_witness:
  "\<not> isRoot childTopic
   \<and> fst (enterTopic (Some rootTopic) \<lparr>context = Some 3, session = webUser\<rparr> childTopic (JStr ''x'') (Some 5)
          nestedWorld) = Inr Undefined
   \<and> contextsOf 0 (snd (enterTopic (Some rootTopic) \<lparr>context = Some 3, session = webUser\<rparr> childTopic
          (JStr ''x'') (Some 5) nestedWorld)) = [2, 3, 4]
   \<and> heap (snd (enterTopic (Some rootTopic) \<lparr>context = Some 3, session = webUser\<rparr> childTopic
          (JStr ''x'') (Some 5) nestedWorld)) 4 =
        \<lparr>data = JStr ''x'', topic = Some ''child'', parentTopic = Some ''home'', yakSession = 0,
         activeHooks = [], disabledHooks = [], cb = Some 5\<rparr>"
  using enterTopic_nonroot_pushes [of "\<lparr>context = Some 3, session = webUser\<rparr>" 3 nestedWorld childTopic "JStr ''x''" "JStr ''x''" "()"
              "Some rootTopic" "Some 5"]
  by (simp add: nestedWorld_def emptyWorld_def rootTopic_def childTopic_def defTopic_def webUser_def
                contextsOf_def pushContext_def blankContext_def blankSession_def Let_def)

text \<open>
  The claim as stated fails for a non-root topic whose \<open>afterInit\<close> exits from the new
  context: the call succeeds and leaves the stack as long as it was.
\<close>

theorem nonroot_afterInit_exits_counterexample:
  "\<not> isRoot bounceTopic
   \<and> contextsOf 0 nestedWorld = [2, 3]
   \<and> fst (enterTopic (Some rootTopic) \<lparr>context = Some 3, session = webUser\<rparr>
          bounceTopic (JStr ''x'') None nestedWorld) = Inr Undefined
   \<and> contextsOf 0 (snd (enterTopic (Some rootTopic) \<lparr>context = Some 3, session = webUser\<rparr>
          bounceTopic (JStr ''x'') None nestedWorld)) = [2, 3]"
  by (simp add: enterTopic_def exitTopic_def invoke_def invokeExt_def alloc_def popContext_def
        pushContext_def activeContext_def contextsOf_def bounceTopic_def rootTopic_def echo_cb_def
        defTopic_def nestedWorld_def emptyWorld_def blankContext_def blankSession_def webUser_def Let_def)

section \<open>Hook dispatch\<close>

text \<open>
  C3. Every dispatch, in four parts. (1) Whatever the outcome, the calls it makes are:
  the parse functions of a prefix of the hooks of the active context's topic, in
  declaration order; then, only once every one of them has been tried, the parse
  functions of global hooks in declaration order; and at most one handler, as the last
  call and belonging to the hook parsed last, so that no hook is tried after a handler
  has run. (2) When the hooks before the local hook \<open>h\<close> do not match and the parse of \<open>h\<close>
  returns a defined result, the dispatch is the handler of \<open>h\<close> run on that result, its
  result normalised: no hook after \<open>h\<close> and no global hook is tried, whatever the global
  topic holds. (3) When no local hook matches, the global hooks before \<open>h\<close> are skipped or
  do not match, and \<open>h\<close> is eligible and its parse returns a defined result, the dispatch
  is the handler of \<open>h\<close> run on that result, after the parses of all the local hooks and
  of the global hooks tried before \<open>h\<close>. (4) The same on an empty stack, where no local hook
  is tried and the hook's state holds the global context.
\<close>

theorem processMessage_first_match_wins:
  "(\<exists>ls gs ran.
       prefix ls (map hook.name (currentHooks yak topics w))
     \<and> subseq gs (map hook.name (case globalTopic of None \<Rightarrow> [] | Some g \<Rightarrow> hooks g))
     \<and> (gs \<noteq> [] \<longrightarrow> ls = map hook.name (currentHooks yak topics w))
     \<and> calls (snd (processMessage sess m yak topics globalTopic gc w)) =
         calls w @ map CallParse (ls @ gs) @ (if ran then [CallHandler (last (ls @ gs))] else [])
     \<and> (ran \<longrightarrow> ls @ gs \<noteq> []))
 \<and> (\<forall>c tn t pre h post w1 p w2.
       activeContext yak w = Some c \<and> topic (heap w c) = Some tn \<and> findTopic tn topics = Some t
     \<and> hooks t = pre @ h # post
     \<and> localLoop pre \<lparr>context = Some c, session = sess\<rparr> m (False, Undefined) w =
         (Inr (False, Undefined), w1)
     \<and> parse h \<lparr>context = Some c, session = sess\<rparr> m w1 = (Inr (Some p), w2)
     \<longrightarrow> processMessage sess m yak topics globalTopic gc w =
           (case invoke (CallHandler (hook.name h)) (handler h \<lparr>context = Some c, session = sess\<rparr> p)
                   (w2\<lparr>calls := calls w @ map CallParse (map hook.name pre) @ [CallParse (hook.name h)]\<rparr>) of
              (Inl e, w3) \<Rightarrow> (Inl e, w3)
            | (Inr v, w3) \<Rightarrow> (Inr (if truthy v then concat_js v else []), w3))
         \<and> calls (snd (processMessage sess m yak topics globalTopic gc w)) =
             calls w @ map CallParse (map hook.name pre) @
               [CallParse (hook.name h), CallHandler (hook.name h)])
 \<and> (\<forall>c tn t g pre h post w1 w2 p w3.
       activeContext yak w = Some c \<and> topic (heap w c) = Some tn \<and> findTopic tn topics = Some t
     \<and> localLoop (hooks t) \<lparr>context = Some c, session = sess\<rparr> m (False, Undefined) w =
         (Inr (False, Undefined), w1)
     \<and> globalTopic = Some g \<and> hooks g = pre @ h # post
     \<and> globalLoop pre (Some c) gc sess m (False, Undefined) w1 = (Inr (False, Undefined), w2)
     \<and> hookCondition (Some c) h w2
     \<and> parse h \<lparr>context = Some c, session = sess\<rparr> m w2 = (Inr (Some p), w3)
     \<longrightarrow> processMessage sess m yak topics globalTopic gc w =
           (case invoke (CallHandler (hook.name h)) (handler h \<lparr>context = Some c, session = sess\<rparr> p)
                   (w3\<lparr>calls := calls w2 @ [CallParse (hook.name h)]\<rparr>) of
              (Inl e, w4) \<Rightarrow> (Inl e, w4)
            | (Inr v, w4) \<Rightarrow> (Inr (if truthy v then concat_js v else []), w4))
         \<and> (\<exists>gs. subseq gs (map hook.name pre)
                \<and> calls (snd (processMessage sess m yak topics globalTopic gc w)) =
                    calls w @ map CallParse (map hook.name (hooks t) @ gs) @
                      [CallParse (hook.name h), CallHandler (hook.name h)]))
 \<and> (\<forall>g pre h post w2 p w3.
       activeContext yak w = None
     \<and> globalTopic = Some g \<and> hooks g = pre @ h # post
     \<and> globalLoop pre None gc sess m (False, Undefined) w = (Inr (False, Undefined), w2)
     \<and> parse h \<lparr>context = Some gc, session = sess\<rparr> m w2 = (Inr (Some p), w3)
     \<longrightarrow> processMessage sess m yak topics globalTopic gc w =
           (case invoke (CallHandler (hook.name h)) (handler h \<lparr>context = Some gc, session = sess\<rparr> p)
                   (w3\<lparr>calls := calls w2 @ [CallParse (hook.name h)]\<rparr>) of
              (Inl e, w4) \<Rightarrow> (Inl e, w4)
            | (Inr v, w4) \<Rightarrow> (Inr (if truthy v then concat_js v else []), w4))
         \<and> (\<exists>gs. subseq gs (map hook.name pre)
                \<and> calls (snd (processMessage sess m yak topics globalTopic gc w)) =
                    calls w @ map CallParse gs @ [CallParse (hook.name h), CallHandler (hook.name h)]))"
proof (intro conjI allI impI; (elim conjE)?)
  obtain r w' where d: "dispatch sess m yak topics globalTopic gc w = (r, w')"
    by (cases "dispatch sess m yak topics globalTopic gc w")
  have w': "snd (dispatch sess m yak topics globalTopic gc w) = w'"
    by (simp add: d)
  show "\<exists>ls gs ran.
       prefix ls (map hook.name (currentHooks yak topics w))
     \<and> subseq gs (map hook.name (case globalTopic of None \<Rightarrow> [] | Some g \<Rightarrow> hooks g))
     \<and> (gs \<noteq> [] \<longrightarrow> ls = map hook.name (currentHooks yak topics w))
     \<and> calls (snd (processMessage sess m yak topics globalTopic gc w)) =
         calls w @ map CallParse (ls @ gs) @ (if ran then [CallHandler (last (ls @ gs))] else [])
     \<and> (ran \<longrightarrow> ls @ gs \<noteq> [])"
    unfolding processMessage_calls w' by (rule dispatch_shape [OF d])
next
  fix c tn t pre h post w1 p w2
  assume ctx: "activeContext yak w = Some c" "topic (heap w c) = Some tn" "findTopic tn topics = Some t"
     and hs: "hooks t = pre @ h # post"
     and pre: "localLoop pre \<lparr>context = Some c, session = sess\<rparr> m (False, Undefined) w =
         (Inr (False, Undefined), w1)"
     and hit: "parse h \<lparr>context = Some c, session = sess\<rparr> m w1 = (Inr (Some p), w2)"
  show "processMessage sess m yak topics globalTopic gc w =
           (case invoke (CallHandler (hook.name h)) (handler h \<lparr>context = Some c, session = sess\<rparr> p)
                   (w2\<lparr>calls := calls w @ map CallParse (map hook.name pre) @ [CallParse (hook.name h)]\<rparr>) of
              (Inl e, w3) \<Rightarrow> (Inl e, w3)
            | (Inr v, w3) \<Rightarrow> (Inr (if truthy v then concat_js v else []), w3))"
    by (rule local_first_match(1) [OF ctx hs pre hit])
  show "calls (snd (processMessage sess m yak topics globalTopic gc w)) =
             calls w @ map CallParse (map hook.name pre) @
               [CallParse (hook.name h), CallHandler (hook.name h)]"
    by (rule local_first_match(2) [OF ctx hs pre hit])
next
  fix c tn t g pre h post w1 w2 p w3
  assume ctx: "activeContext yak w = Some c" "topic (heap w c) = Some tn" "findTopic tn topics = Some t"
     and loc: "localLoop (hooks t) \<lparr>context = Some c, session = sess\<rparr> m (False, Undefined) w =
         (Inr (False, Undefined), w1)"
     and g: "globalTopic = Some g" and hs: "hooks g = pre @ h # post"
     and pre: "globalLoop pre (Some c) gc sess m (False, Undefined) w1 = (Inr (False, Undefined), w2)"
     and yes: "hookCondition (Some c) h w2"
     and hit: "parse h \<lparr>context = Some c, session = sess\<rparr> m w2 = (Inr (Some p), w3)"
  have lp: "localPhase sess m yak topics w = (Inr (False, Undefined), w1)"
    using localPhase_active(1) [OF ctx, of sess m] loc by simp
  have ch: "currentHooks yak topics w = hooks t"
    by (rule localPhase_active(2) [OF ctx])
  have hit': "parse h \<lparr>context = Some (case Some c of Some c \<Rightarrow> c | None \<Rightarrow> gc), session = sess\<rparr> m w2 =
                  (Inr (Some p), w3)"
    using hit by simp
  note fm = global_first_match [OF ctx(1) lp g hs pre yes hit']
  show "processMessage sess m yak topics globalTopic gc w =
           (case invoke (CallHandler (hook.name h)) (handler h \<lparr>context = Some c, session = sess\<rparr> p)
                   (w3\<lparr>calls := calls w2 @ [CallParse (hook.name h)]\<rparr>) of
              (Inl e, w4) \<Rightarrow> (Inl e, w4)
            | (Inr v, w4) \<Rightarrow> (Inr (if truthy v then concat_js v else []), w4))"
    using fm(1) by simp
  from fm(3) obtain gs where
    gs: "subseq gs (map hook.name pre)"
        "calls w2 = calls w @ map CallParse (map hook.name (currentHooks yak topics w) @ gs)"
    by blast
  show "\<exists>gs. subseq gs (map hook.name pre)
                \<and> calls (snd (processMessage sess m yak topics globalTopic gc w)) =
                    calls w @ map CallParse (map hook.name (hooks t) @ gs) @
                      [CallParse (hook.name h), CallHandler (hook.name h)]"
    using gs fm(2) ch by (intro exI[of _ gs]) simp
next
  fix g pre h post w2 p w3
  assume idle: "activeContext yak w = None"
     and g: "globalTopic = Some g" and hs: "hooks g = pre @ h # post"
     and pre: "globalLoop pre None gc sess m (False, Undefined) w = (Inr (False, Undefined), w2)"
     and hit: "parse h \<lparr>context = Some gc, session = sess\<rparr> m w2 = (Inr (Some p), w3)"
  have lp: "localPhase sess m yak topics w = (Inr (False, Undefined), w)"
    by (rule localPhase_idle(1) [OF idle])
  have ch: "currentHooks yak topics w = []"
    by (rule localPhase_idle(2) [OF idle])
  have yes': "hookCondition None h w2"
    by (simp add: hookCondition_def)
  have hit': "parse h \<lparr>context = Some (case None of Some c \<Rightarrow> c | None \<Rightarrow> gc), session = sess\<rparr> m w2 =
                  (Inr (Some p), w3)"
    using hit by simp
  note fm = global_first_match [OF idle lp g hs pre yes' hit']
  show "processMessage sess m yak topics globalTopic gc w =
           (case invoke (CallHandler (hook.name h)) (handler h \<lparr>context = Some gc, session = sess\<rparr> p)
                   (w3\<lparr>calls := calls w2 @ [CallParse (hook.name h)]\<rparr>) of
              (Inl e, w4) \<Rightarrow> (Inl e, w4)
            | (Inr v, w4) \<Rightarrow> (Inr (if truthy v then concat_js v else []), w4))"
    using fm(1) by simp
  from fm(3) obtain gs where
    gs: "subseq gs (map hook.name pre)"
        "calls w2 = calls w @ map CallParse (map hook.name (currentHooks yak topics w) @ gs)"
    by blast
  show "\<exists>gs. subseq gs (map hook.name pre)
                \<and> calls (snd (processMessage sess m yak topics globalTopic gc w)) =
                    calls w @ map CallParse gs @ [CallParse (hook.name h), CallHandler (hook.name h)]"
    using gs fm(2) ch by (intro exI[of _ gs]) simp
qed


theorem processMessage_first_match_wins_witness:
  "processMessage webUser (Some hello) 0 [mainTopicEx] (Some globalTopic0) 9 mainWorld =
     (Inr [JStr ''hi''], mainWorld\<lparr>calls := [CallParse ''hello'', CallHandler ''hello'']\<rparr>)
   \<and> processMessage webUser (Some hey) 0 [mainTopicEx] (Some globalTopic0) 9 mainWorld =
     (Inr [JStr ''global''],
      mainWorld\<lparr>calls := [CallParse ''hello'', CallParse ''fallback'', CallHandler ''fallback'']\<rparr>)
   \<and> processMessage webUser (Some hello) 0 [mainTopicEx] (Some globalTopic0) 9 emptyWorld =
     (Inr [JStr ''global''], emptyWorld\<lparr>calls := [CallParse ''fallback'', CallHandler ''fallback'']\<rparr>)"
proof -
  have ctx: "activeContext 0 mainWorld = Some 2" "topic (heap mainWorld 2) = Some ''main''"
            "findTopic ''main'' [mainTopicEx] = Some mainTopicEx"
    by (simp_all add: activeContext_def contextsOf_def mainWorld_def emptyWorld_def findTopic_def
                      mainTopicEx_def defTopic_def blankContext_def blankSession_def)
  have idle: "activeContext 0 emptyWorld = None"
    by (simp add: activeContext_def contextsOf_def emptyWorld_def)
  have names: "hook.name helloHook = ''hello''" "hook.name fallbackHook = ''fallback''"
    by (simp_all add: helloHook_def fallbackHook_def defPattern_def)
  have logs: "calls mainWorld = []" "calls emptyWorld = []"
    by (simp_all add: mainWorld_def emptyWorld_def)
  let ?st = "\<lparr>context = Some 2, session = webUser\<rparr>"
  let ?w1 = "mainWorld\<lparr>calls := [CallParse ''hello'']\<rparr>"
  have local_hit:
    "activeContext 0 mainWorld = Some 2 \<and> topic (heap mainWorld 2) = Some ''main''
     \<and> findTopic ''main'' [mainTopicEx] = Some mainTopicEx
     \<and> hooks mainTopicEx = [] @ helloHook # []
     \<and> localLoop [] ?st (Some hello) (False, Undefined) mainWorld = (Inr (False, Undefined), mainWorld)
     \<and> parse helloHook ?st (Some hello) mainWorld =
         (Inr (Some \<lparr>pr_message = hello, pr_i = 0, pr_matches = \<lparr>groups = [''hello''], index = 0\<rparr>\<rparr>),
          mainWorld)"
    using ctx by (simp add: mainTopicEx_def defTopic_def helloHook_def defPattern_def literal_def hello_def)
  have global_hit:
    "activeContext 0 mainWorld = Some 2 \<and> topic (heap mainWorld 2) = Some ''main''
     \<and> findTopic ''main'' [mainTopicEx] = Some mainTopicEx
     \<and> localLoop (hooks mainTopicEx) ?st (Some hey) (False, Undefined) mainWorld = (Inr (False, Undefined), ?w1)
     \<and> Some globalTopic0 = Some globalTopic0 \<and> hooks globalTopic0 = [] @ fallbackHook # []
     \<and> globalLoop [] (Some 2) 9 webUser (Some hey) (False, Undefined) ?w1 = (Inr (False, Undefined), ?w1)
     \<and> hookCondition (Some 2) fallbackHook ?w1
     \<and> parse fallbackHook ?st (Some hey) ?w1 =
         (Inr (Some \<lparr>pr_message = hey, pr_i = 0, pr_matches = \<lparr>groups = [''h''], index = 0\<rparr>\<rparr>), ?w1)"
    using ctx
    by (simp add: mainTopicEx_def globalTopic0_def defTopic_def helloHook_def fallbackHook_def
          defPattern_def literal_def hey_def runHook_def invoke_def hookCondition_def
          mainWorld_def emptyWorld_def blankContext_def)
  have idle_hit:
    "activeContext 0 emptyWorld = None
     \<and> Some globalTopic0 = Some globalTopic0 \<and> hooks globalTopic0 = [] @ fallbackHook # []
     \<and> globalLoop [] None 9 webUser (Some hello) (False, Undefined) emptyWorld =
         (Inr (False, Undefined), emptyWorld)
     \<and> parse fallbackHook \<lparr>context = Some 9, session = webUser\<rparr> (Some hello) emptyWorld =
         (Inr (Some \<lparr>pr_message = hello, pr_i = 0, pr_matches = \<lparr>groups = [''h''], index = 0\<rparr>\<rparr>),
          emptyWorld)"
    using idle
    by (simp add: globalTopic0_def defTopic_def fallbackHook_def defPattern_def literal_def hello_def)
  note main = processMessage_first_match_wins [where yak = 0 and topics = "[mainTopicEx]" and w = mainWorld
                    and globalTopic = "Some globalTopic0" and sess = webUser and gc = 9]
  note first = main [where m = "Some hello", THEN conjunct2, THEN conjunct1, rule_format, OF local_hit]
  note second = main [where m = "Some hey", THEN conjunct2, THEN conjunct2, THEN conjunct1, rule_format,
                      OF global_hit]
  note third = processMessage_first_match_wins [where yak = 0 and topics = "[mainTopicEx]" and w = emptyWorld
                     and globalTopic = "Some globalTopic0" and sess = webUser and gc = 9
                     and m = "Some hello",
                   THEN conjunct2, THEN conjunct2, THEN conjunct2, rule_format, OF idle_hit]
  have a: "processMessage webUser (Some hello) 0 [mainTopicEx] (Some globalTopic0) 9 mainWorld =
     (Inr [JStr ''hi''], mainWorld\<lparr>calls := [CallParse ''hello'', CallHandler ''hello'']\<rparr>)"
    using first [THEN conjunct1]
    by (simp add: names logs helloHook_def defPattern_def invoke_def)
  have b: "processMessage webUser (Some hey) 0 [mainTopicEx] (Some globalTopic0) 9 mainWorld =
     (Inr [JStr ''global''],
      mainWorld\<lparr>calls := [CallParse ''hello'', CallParse ''fallback'', CallHandler ''fallback'']\<rparr>)"
    using second [THEN conjunct1]
    by (simp add: names logs fallbackHook_def defPattern_def invoke_def)
  have c: "processMessage webUser (Some hello) 0 [mainTopicEx] (Some globalTopic0) 9 emptyWorld =
     (Inr [JStr ''global''], emptyWorld\<lparr>calls := [CallParse ''fallback'', CallHandler ''fallback'']\<rparr>)"
    using third [THEN conjunct1]
    by (simp add: names logs fallbackHook_def defPattern_def invoke_def)
  from a b c show ?thesis by simp
qed

text \<open>
  C4. The condition under which the global phase runs a hook is the specification's
  eligibility rule, read on the context that was active when the dispatch began, as that
  object is when the hook's turn comes: a non-empty \<open>activeHooks\<close> must hold the hook's
  name; otherwise a non-empty \<open>disabledHooks\<close> must not hold it; otherwise the hook is
  eligible. In a dispatch with an active context whose local phase matched nothing, a
  global hook \<open>h\<close> whose turn comes and that is not eligible is skipped: \<open>processMessage\<close>
  goes on with the hooks after it from the same state, calling neither its parse nor its
  handler. An eligible one is run. Without an active context every global hook whose turn
  comes is run, on the global context.
\<close>

theorem global_hook_eligibility:
  "hookCondition None h0 w0
 \<and> hookCondition (Some c0) h0 w0 =
     eligible_spec (activeHooks (heap w0 c0)) (disabledHooks (heap w0 c0)) (hook.name h0)
 \<and> (\<forall>c tn t g pre h post w1 w2.
       activeContext yak w = Some c \<and> topic (heap w c) = Some tn \<and> findTopic tn topics = Some t
     \<and> localLoop (hooks t) \<lparr>context = Some c, session = sess\<rparr> m (False, Undefined) w =
         (Inr (False, Undefined), w1)
     \<and> globalTopic = Some g \<and> hooks g = pre @ h # post
     \<and> globalLoop pre (Some c) gc sess m (False, Undefined) w1 = (Inr (False, Undefined), w2)
     \<longrightarrow> (\<not> eligible_spec (activeHooks (heap w2 c)) (disabledHooks (heap w2 c)) (hook.name h) \<longrightarrow>
            processMessage sess m yak topics globalTopic gc w =
              (case globalLoop post (Some c) gc sess m (False, Undefined) w2 of
                 (Inl e, w') \<Rightarrow> (Inl e, w')
               | (Inr (handled, r), w') \<Rightarrow> (Inr (if truthy r then concat_js r else []), w')))
         \<and> (eligible_spec (activeHooks (heap w2 c)) (disabledHooks (heap w2 c)) (hook.name h) \<longrightarrow>
            processMessage sess m yak topics globalTopic gc w =
              (case runHook h \<lparr>context = Some c, session = sess\<rparr> m w2 of
                 (Inl e, w') \<Rightarrow> (Inl e, w')
               | (Inr (handled, r), w') \<Rightarrow>
                   if handled then (Inr (if truthy r then concat_js r else []), w')
                   else (case globalLoop post (Some c) gc sess m (handled, r) w' of
                           (Inl e, w'') \<Rightarrow> (Inl e, w'')
                         | (Inr (handled', r'), w'') \<Rightarrow>
                             (Inr (if truthy r' then concat_js r' else []), w'')))))
 \<and> (\<forall>g pre h post w2.
       activeContext yak w = None
     \<and> globalTopic = Some g \<and> hooks g = pre @ h # post
     \<and> globalLoop pre None gc sess m (False, Undefined) w = (Inr (False, Undefined), w2)
     \<longrightarrow> processMessage sess m yak topics globalTopic gc w =
           (case runHook h \<lparr>context = Some gc, session = sess\<rparr> m w2 of
              (Inl e, w') \<Rightarrow> (Inl e, w')
            | (Inr (handled, r), w') \<Rightarrow>
                if handled then (Inr (if truthy r then concat_js r else []), w')
                else (case globalLoop post None gc sess m (handled, r) w' of
                        (Inl e, w'') \<Rightarrow> (Inl e, w'')
                      | (Inr (handled', r'), w'') \<Rightarrow>
                          (Inr (if truthy r' then concat_js r' else []), w''))))"
proof (intro conjI allI impI; (elim conjE)?)
  show "hookCondition None h0 w0"
    by (simp add: hookCondition_def)
  show "hookCondition (Some c0) h0 w0 =
     eligible_spec (activeHooks (heap w0 c0)) (disabledHooks (heap w0 c0)) (hook.name h0)"
    by (auto simp: hookCondition_def eligible_spec_def)
next
  fix c tn t g pre h post w1 w2
  assume ctx: "activeContext yak w = Some c" "topic (heap w c) = Some tn" "findTopic tn topics = Some t"
     and loc: "localLoop (hooks t) \<lparr>context = Some c, session = sess\<rparr> m (False, Undefined) w =
         (Inr (False, Undefined), w1)"
     and g: "globalTopic = Some g" and hs: "hooks g = pre @ h # post"
     and pre: "globalLoop pre (Some c) gc sess m (False, Undefined) w1 = (Inr (False, Undefined), w2)"
     and no: "\<not> eligible_spec (activeHooks (heap w2 c)) (disabledHooks (heap w2 c)) (hook.name h)"
  have lp: "localPhase sess m yak topics w = (Inr (False, Undefined), w1)"
    using localPhase_active(1) [OF ctx, of sess m] loc by simp
  have no': "\<not> hookCondition (Some c) h w2"
    using no by (auto simp: hookCondition_def eligible_spec_def split: if_splits)
  show "processMessage sess m yak topics globalTopic gc w =
              (case globalLoop post (Some c) gc sess m (False, Undefined) w2 of
                 (Inl e, w') \<Rightarrow> (Inl e, w')
               | (Inr (handled, r), w') \<Rightarrow> (Inr (if truthy r then concat_js r else []), w'))"
    by (rule global_skip [OF ctx(1) lp g hs pre no'])
next
  fix c tn t g pre h post w1 w2
  assume ctx: "activeContext yak w = Some c" "topic (heap w c) = Some tn" "findTopic tn topics = Some t"
     and loc: "localLoop (hooks t) \<lparr>context = Some c, session = sess\<rparr> m (False, Undefined) w =
         (Inr (False, Undefined), w1)"
     and g: "globalTopic = Some g" and hs: "hooks g = pre @ h # post"
     and pre: "globalLoop pre (Some c) gc sess m (False, Undefined) w1 = (Inr (False, Undefined), w2)"
     and yes: "eligible_spec (activeHooks (heap w2 c)) (disabledHooks (heap w2 c)) (hook.name h)"
  have lp: "localPhase sess m yak topics w = (Inr (False, Undefined), w1)"
    using localPhase_active(1) [OF ctx, of sess m] loc by simp
  have yes': "hookCondition (Some c) h w2"
    using yes by (auto simp: hookCondition_def eligible_spec_def split: if_splits)
  show "processMessage sess m yak topics globalTopic gc w =
              (case runHook h \<lparr>context = Some c, session = sess\<rparr> m w2 of
                 (Inl e, w') \<Rightarrow> (Inl e, w')
               | (Inr (handled, r), w') \<Rightarrow>
                   if handled then (Inr (if truthy r then concat_js r else []), w')
                   else (case globalLoop post (Some c) gc sess m (handled, r) w' of
                           (Inl e, w'') \<Rightarrow> (Inl e, w'')
                         | (Inr (handled', r'), w'') \<Rightarrow>
                             (Inr (if truthy r' then concat_js r' else []), w'')))"
    using global_run [OF ctx(1) lp g hs pre yes'] by simp
next
  fix g pre h post w2
  assume idle: "activeContext yak w = None"
     and g: "globalTopic = Some g" and hs: "hooks g = pre @ h # post"
     and pre: "globalLoop pre None gc sess m (False, Undefined) w = (Inr (False, Undefined), w2)"
  have lp: "localPhase sess m yak topics w = (Inr (False, Undefined), w)"
    by (rule localPhase_idle(1) [OF idle])
  have yes': "hookCondition None h w2"
    by (simp add: hookCondition_def)
  show "processMessage sess m yak topics globalTopic gc w =
           (case runHook h \<lparr>context = Some gc, session = sess\<rparr> m w2 of
              (Inl e, w') \<Rightarrow> (Inl e, w')
            | (Inr (handled, r), w') \<Rightarrow>
                if handled then (Inr (if truthy r then concat_js r else []), w')
                else (case globalLoop post None gc sess m (handled, r) w' of
                        (Inl e, w'') \<Rightarrow> (Inl e, w'')
                      | (Inr (handled', r'), w'') \<Rightarrow>
                          (Inr (if truthy r' then concat_js r' else []), w'')))"
    using global_run [OF idle lp g hs pre yes'] by simp
qed

theorem global_hook_eligibility_witness:
  "\<not> eligible_spec [''b''] [] ''a''
   \<and> eligible_spec [''b''] [] ''b''
   \<and> processMessage webUser (Some hey) 0 [mainTopicEx] (Some globalAB) 9 onlyBWorld =
       (Inr [JStr ''B''],
        onlyBWorld\<lparr>calls := [CallParse ''hello'', CallParse ''b'', CallHandler ''b'']\<rparr>)"
proof -
  let ?st = "\<lparr>context = Some 2, session = webUser\<rparr>"
  let ?w1 = "onlyBWorld\<lparr>calls := [CallParse ''hello'']\<rparr>"
  have e: "\<not> eligible_spec [''b''] [] ''a''" "eligible_spec [''b''] [] ''b''"
    by (simp_all add: eligible_spec_def)
  have lists: "activeHooks (heap onlyBWorld 2) = [''b'']" "disabledHooks (heap onlyBWorld 2) = []"
    by (simp_all add: onlyBWorld_def mainWorld_def emptyWorld_def blankContext_def)
  have names: "hook.name hookA = ''a''" "hook.name hookB = ''b''"
    by (simp_all add: hookA_def hookB_def defPattern_def)
  have scan:
    "activeContext 0 onlyBWorld = Some 2 \<and> topic (heap onlyBWorld 2) = Some ''main''
     \<and> findTopic ''main'' [mainTopicEx] = Some mainTopicEx
     \<and> localLoop (hooks mainTopicEx) ?st (Some hey) (False, Undefined) onlyBWorld = (Inr (False, Undefined), ?w1)
     \<and> Some globalAB = Some globalAB \<and> hooks globalAB = [] @ hookA # [hookB]
     \<and> globalLoop [] (Some 2) 9 webUser (Some hey) (False, Undefined) ?w1 = (Inr (False, Undefined), ?w1)"
    by (simp add: activeContext_def contextsOf_def findTopic_def mainTopicEx_def globalAB_def defTopic_def
          helloHook_def defPattern_def literal_def hey_def runHook_def invoke_def
          onlyBWorld_def mainWorld_def emptyWorld_def blankContext_def blankSession_def)
  note skip = global_hook_eligibility [where yak = 0 and topics = "[mainTopicEx]" and w = onlyBWorld
                    and globalTopic = "Some globalAB" and sess = webUser and gc = 9 and m = "Some hey",
                  THEN conjunct2, THEN conjunct2, THEN conjunct1, rule_format, OF scan, THEN conjunct1]
  have a_out: "\<not> eligible_spec (activeHooks (heap ?w1 2)) (disabledHooks (heap ?w1 2)) (hook.name hookA)"
    using e(1) by (simp add: lists names)
  have b_in: "hookCondition (Some 2) hookB ?w1"
    using global_hook_eligibility [of hookB ?w1 2, THEN conjunct2, THEN conjunct1] e(2) by (simp add: lists names)
  have rest: "globalLoop [hookB] (Some 2) 9 webUser (Some hey) (False, Undefined) ?w1 =
                (Inr (True, JStr ''B''),
                 onlyBWorld\<lparr>calls := [CallParse ''hello'', CallParse ''b'', CallHandler ''b'']\<rparr>)"
    using b_in
    by (simp add: runHook_def invoke_def hookB_def defPattern_def literal_def hey_def)
  have "processMessage webUser (Some hey) 0 [mainTopicEx] (Some globalAB) 9 onlyBWorld =
       (Inr [JStr ''B''],
        onlyBWorld\<lparr>calls := [CallParse ''hello'', CallParse ''b'', CallHandler ''b'']\<rparr>)"
    using skip [rule_format, OF a_out] unfolding rest by simp
  with e show ?thesis by simp
qed

text \<open>
  C7, as amended. When the two phases of a dispatch complete with the final values
  \<open>handled\<close> and \<open>v\<close> of the loop variables, \<open>processMessage\<close> returns normally: the
  elements of \<open>v\<close> when it is an array, the one-element sequence \<open>[v]\<close> when \<open>v\<close> is any
  other truthy value, and the empty sequence when \<open>v\<close> is falsy. A dispatch that matched
  has for \<open>v\<close> the result of the handler of one of the hooks scanned; one that matched no
  hook has \<open>v\<close> undefined, and so returns the empty sequence.
\<close>

theorem processMessage_result_normalised:
  assumes "dispatch sess m yak topics globalTopic gc w = (Inr (handled, v), w')"
  shows "processMessage sess m yak topics globalTopic gc w =
           (Inr (if handled \<and> truthy v then (case v of JArr xs \<Rightarrow> xs | _ \<Rightarrow> [v]) else []), w')
       \<and> (handled \<longrightarrow>
            (\<exists>h \<in> set (currentHooks yak topics w @ (case globalTopic of None \<Rightarrow> [] | Some g \<Rightarrow> hooks g)).
               \<exists>st p w0 w2. handler h st p w0 = (Inr v, w2)))
       \<and> (\<not> handled \<longrightarrow> v = Undefined)"
proof -
  note r = dispatch_result [OF assms]
  have "processMessage sess m yak topics globalTopic gc w =
           (Inr (if handled \<and> truthy v then (case v of JArr xs \<Rightarrow> xs | _ \<Rightarrow> [v]) else []), w')"
    using assms r by (cases v) (auto simp: processMessage_def)
  with r show ?thesis by blast
qed

text \<open>
  The claim as stated fails for a hook that matches and whose handler returns nothing:
  the result is the empty sequence, not a one-element sequence.
\<close>

theorem matched_hook_falsy_result_counterexample:
  "runHook quietHook \<lparr>context = Some 9, session = webUser\<rparr> (Some hello) emptyWorld =
     (Inr (True, Undefined), emptyWorld\<lparr>calls := [CallParse ''quiet'', CallHandler ''quiet'']\<rparr>)
   \<and> processMessage webUser (Some hello) 0 [] (Some quietGlobal) 9 emptyWorld =
     (Inr [], emptyWorld\<lparr>calls := [CallParse ''quiet'', CallHandler ''quiet'']\<rparr>)"
  by (simp add: processMessage_def dispatch_def localPhase_def globalPhase_def activeContext_def
        contextsOf_def hookCondition_def runHook_def invoke_def quietGlobal_def quietHook_def defTopic_def defPattern_def
        literal_def hello_def emptyWorld_def)


theorem processMessage_result_normalised_witness:
  "dispatch webUser (Some hello) 0 [mainTopicEx] (Some globalTopic0) 9 mainWorld =
     (Inr (True, JStr ''hi''), mainWorld\<lparr>calls := [CallParse ''hello'', CallHandler ''hello'']\<rparr>)
   \<and> processMessage webUser (Some hello) 0 [mainTopicEx] (Some globalTopic0) 9 mainWorld =
     (Inr [JStr ''hi''], mainWorld\<lparr>calls := [CallParse ''hello'', CallHandler ''hello'']\<rparr>)"
proof -
  have d: "dispatch webUser (Some hello) 0 [mainTopicEx] (Some globalTopic0) 9 mainWorld =
     (Inr (True, JStr ''hi''), mainWorld\<lparr>calls := [CallParse ''hello'', CallHandler ''hello'']\<rparr>)"
    by (simp add: dispatch_def localPhase_def globalPhase_def activeContext_def contextsOf_def findTopic_def
          runHook_def invoke_def mainTopicEx_def helloHook_def defTopic_def defPattern_def
          literal_def hello_def mainWorld_def emptyWorld_def blankContext_def blankSession_def)
  from processMessage_result_normalised [OF d] d show ?thesis by simp
qed

section \<open>Pattern hooks\<close>

text \<open>
  C9, as amended. The parse of a pattern hook returns the index of the first pattern, in
  list order, that matches the message text, with that pattern's match. For the patterns
  \<^verbatim>\<open>[/foo/, /bar/]\<close> and the text \<^verbatim>\<open>"barfoo"\<close> this is index 0: \<^verbatim>\<open>/foo/\<close> matches at offset 3.
\<close>

theorem defPattern_first_matching_pattern:
  assumes "k < length patterns"
      and "(patterns ! k) (text msg) = Some mt"
      and "\<forall>j<k. (patterns ! j) (text msg) = None"
  shows "parse (defPattern t n patterns h) st (Some msg) w =
           (Inr (Some \<lparr>pr_message = msg, pr_i = k, pr_matches = mt\<rparr>), w)"
  using patternLoop_first [OF assms, of 0] by (simp add: defPattern_def)

theorem defPattern_first_matching_pattern_witness:
  "literal ''foo'' (text barfoo) = Some \<lparr>groups = [''foo''], index = 3\<rparr>
   \<and> parse (defPattern stubTopic ''fooOrBar'' [literal ''foo'', literal ''bar''] (\<lambda>st pr w. (Inr Undefined, w)))
        \<lparr>context = Some 0, session = webUser\<rparr> (Some barfoo) emptyWorld =
       (Inr (Some \<lparr>pr_message = barfoo, pr_i = 0, pr_matches = \<lparr>groups = [''foo''], index = 3\<rparr>\<rparr>), emptyWorld)"
proof -
  have m: "literal ''foo'' (text barfoo) = Some \<lparr>groups = [''foo''], index = 3\<rparr>"
    by (simp add: literal_def barfoo_def)
  from defPattern_first_matching_pattern [of 0 "[literal ''foo'', literal ''bar'']" barfoo "\<lparr>groups = [''foo''], index = 3\<rparr>"
              stubTopic "''fooOrBar''" "\<lambda>st pr w. (Inr Undefined, w)" "\<lparr>context = Some 0, session = webUser\<rparr>"
              emptyWorld] m
  show ?thesis by simp
qed

text \<open>
  The claim as stated fails: \<^verbatim>\<open>/bar/\<close> matches \<^verbatim>\<open>"barfoo"\<close> earlier in the text, but
  \<^verbatim>\<open>/foo/\<close> comes first in the list and matches too, so the index returned is 0, not 1.
\<close>

theorem foo_bar_barfoo_counterexample:
  "literal ''bar'' (text barfoo) = Some \<lparr>groups = [''bar''], index = 0\<rparr>
   \<and> fst (parse fooBarHook \<lparr>context = Some 0, session = webUser\<rparr> (Some barfoo) emptyWorld) =
       Inr (Some \<lparr>pr_message = barfoo, pr_i = 0, pr_matches = \<lparr>groups = [''foo''], index = 3\<rparr>\<rparr>)
   \<and> fst (parse fooBarHook \<lparr>context = Some 0, session = webUser\<rparr> (Some barfoo) emptyWorld) \<noteq>
       Inr (Some \<lparr>pr_message = barfoo, pr_i = 1, pr_matches = \<lparr>groups = [''bar''], index = 0\<rparr>\<rparr>)"
  by (simp add: fooBarHook_def defPattern_def literal_def barfoo_def)

section \<open>Session orchestrator\<close>

text \<open>
  C8, as amended. A call of the handler on a session that is virgin (none saved under its
  id, or the saved one has the flag) clears the flag and, with a topic \<^verbatim>\<open>"main"\<close> in the
  registry, enters it by \<open>enterTopic\<close> from the fresh global context, with undefined
  arguments and no continuation. The incoming message is then processed in that same call:
  the strategy switch runs on the state \<open>enterTopic\<close> leaves, and its result is returned
  and the session saved. An error of \<open>enterTopic\<close> ends the call.
\<close>

theorem virgin_session_bootstrap_then_dispatch:
  assumes "(case libSession_get ((case getSessionId options of Some f \<Rightarrow> f | None \<Rightarrow> ext_id) sess) w of
              Some savedSession \<Rightarrow> virgin (sessions w savedSession)
            | None \<Rightarrow> True)"
  shows "init_handler allTopics options fbFormatter webFormatter sess messages' w =
     (let globalTopic = findTopic ''global'' allTopics;
          topics = filter (\<lambda>t. topic.name t \<noteq> ''global'') allTopics;
          getId = (case getSessionId options of Some f \<Rightarrow> f | None \<Rightarrow> ext_id);
          getType = (case getSessionType options of Some f \<Rightarrow> f | None \<Rightarrow> ext_type);
          opts = (case messageOptions options of Some m \<Rightarrow> m | None \<Rightarrow> Last);
          messages = (case messages' of Batch ms \<Rightarrow> ms | One m \<Rightarrow> [m]);
          (yak, w') = loadSession (getId sess) (getType sess) w;
          globalContext = nextRef w';
          w1 = w'\<lparr>heap := (heap w')(globalContext :=
                    \<lparr>data = Undefined, topic = map_option topic.name globalTopic, parentTopic = None,
                     yakSession = yak, activeHooks = [], disabledHooks = [], cb = None\<rparr>),
                  nextRef := Suc (nextRef w'),
                  sessions := (sessions w')(yak := (sessions w' yak)\<lparr>virgin := False\<rparr>)\<rparr>
      in case (case findTopic ''main'' topics of
                 Some mainTopic \<Rightarrow>
                   enterTopic globalTopic \<lparr>context = Some globalContext, session = sess\<rparr> mainTopic
                     Undefined None w1
               | None \<Rightarrow> (Inr Undefined, w1)) of
           (Inl e, w2) \<Rightarrow> (Inl e, w2)
         | (Inr entered, w2) \<Rightarrow>
             (case strategySwitch opts messages (formatters fbFormatter webFormatter (ext_type sess))
                     sess yak topics globalTopic globalContext w2 of
                (Inl e, w3) \<Rightarrow> (Inl e, w3)
              | (Inr results, w3) \<Rightarrow> (Inr results, libSession_save yak w3)))"
proof -
  let ?id = "(case getSessionId options of Some f \<Rightarrow> f | None \<Rightarrow> ext_id) sess"
  let ?ty = "(case getSessionType options of Some f \<Rightarrow> f | None \<Rightarrow> ext_type) sess"
  obtain yak w' where ld: "loadSession ?id ?ty w = (yak, w')"
    by (cases "loadSession ?id ?ty w")
  have v: "virgin (sessions w' yak)"
    using assms ld
    by (auto simp: loadSession_def allocSession_def allocArray_def Let_def split: option.splits)
  show ?thesis
    using ld v by (simp add: init_handler_def bootstrap_def alloc_def Let_def)
qed

theorem virgin_session_bootstrap_then_dispatch_witness:
  "libSession_get (ext_id webUser) emptyWorld = None
   \<and> fst (init_handler [mainTopicEx, emptyGlobal] defaultOptions textFormatter textFormatter webUser
            (One ''bye'') emptyWorld) = Inr []
   \<and> calls (snd (init_handler [mainTopicEx, emptyGlobal] defaultOptions textFormatter textFormatter webUser
            (One ''bye'') emptyWorld)) = [CallInit ''main'', CallParse ''hello'']
   \<and> store (snd (init_handler [mainTopicEx, emptyGlobal] defaultOptions textFormatter textFormatter webUser
            (One ''bye'') emptyWorld)) ''u1'' = Some 1
   \<and> virgin (sessions (snd (init_handler [mainTopicEx, emptyGlobal] defaultOptions textFormatter
            textFormatter webUser (One ''bye'') emptyWorld)) 1) = False
   \<and> contextsOf 1 (snd (init_handler [mainTopicEx, emptyGlobal] defaultOptions textFormatter
            textFormatter webUser (One ''bye'') emptyWorld)) = [3]"
  using virgin_session_bootstrap_then_dispatch [where options = defaultOptions and sess = webUser and w = emptyWorld
                and allTopics = "[mainTopicEx, emptyGlobal]" and fbFormatter = textFormatter
                and webFormatter = textFormatter and messages' = "One ''bye''"]
  by (simp add: loadSession_def bootstrap_def strategySwitch_def enterTopic_def
          processMessage_def dispatch_def localPhase_def globalPhase_def runHook_def invoke_def
          invokeExt_def alloc_def allocArray_def allocSession_def resetContexts_def pushContext_def
          activeContext_def contextsOf_def findTopic_def formatters_def libSession_get_def
          libSession_save_def hookCondition_def mainTopicEx_def emptyGlobal_def helloHook_def
          defTopic_def defPattern_def literal_def defaultOptions_def
          textFormatter_def webUser_def emptyWorld_def blankContext_def blankSession_def Let_def)

text \<open>
  The claim as stated fails on a first contact with the registry of \<open>main\<close> alone and
  the message \<^verbatim>\<open>"hello"\<close>: the same call that enters \<open>main\<close> also runs its hook and
  returns the handler's answer.
\<close>

theorem first_contact_dispatches_counterexample:
  "libSession_get (ext_id webUser) emptyWorld = None
   \<and> fst (init_handler [mainTopicEx] defaultOptions textFormatter textFormatter webUser
            (One ''hello'') emptyWorld) = Inr [JStr ''hi'']
   \<and> calls (snd (init_handler [mainTopicEx] defaultOptions textFormatter textFormatter webUser
            (One ''hello'') emptyWorld)) = [CallInit ''main'', CallParse ''hello'', CallHandler ''hello'']"
  by (simp add: init_handler_def loadSession_def bootstrap_def strategySwitch_def enterTopic_def
          processMessage_def dispatch_def localPhase_def globalPhase_def runHook_def invoke_def
          invokeExt_def alloc_def allocArray_def allocSession_def resetContexts_def pushContext_def
          activeContext_def contextsOf_def findTopic_def formatters_def libSession_get_def
          libSession_save_def hookCondition_def mainTopicEx_def emptyGlobal_def helloHook_def
          defTopic_def defPattern_def literal_def singleOptions_def defaultOptions_def
          textFormatter_def webUser_def emptyWorld_def blankContext_def blankSession_def Let_def)

text \<open>
  C10. Under the \<^verbatim>\<open>"single"\<close> strategy the batch \<open>ms @ [m]\<close> is processed message by message,
  each in the state the one before it left, and the outcome is that of \<open>processMessage\<close>
  on the last message \<open>m\<close>: the sequence the earlier messages produced (\<open>earlier\<close>) is
  dropped, whatever the last one produces, the empty sequence included. So a call of the
  handler that returns \<open>out\<close> for such a batch returns what the last message produced.
\<close>

theorem single_strategy_returns_last_result:
  "strategySwitch Single (ms @ [m]) fmt sess yak topics g gc w =
     (case singleLoop ms fmt sess yak topics g gc [] w of
        (Inl e, w1) \<Rightarrow> (Inl e, w1)
      | (Inr earlier, w1) \<Rightarrow>
          (case fmt of
             None \<Rightarrow> (Inl TypeError, w1)
           | Some f \<Rightarrow> processMessage sess (parseIncomingMessage f (Some m)) yak topics g gc w1))
   \<and> (messageOptions options = Some Single
      \<and> init_handler allTopics options fb web sess (Batch (ms @ [m])) w = (Inr out, w')
      \<longrightarrow> (let ld = (loadSession ((case getSessionId options of Some f \<Rightarrow> f | None \<Rightarrow> ext_id) sess)
                 ((case getSessionType options of Some f \<Rightarrow> f | None \<Rightarrow> ext_type) sess) w);
               session = fst ld;
               globalContext = nextRef (snd ld);
               topics' = filter (\<lambda>t. topic.name t \<noteq> ''global'') allTopics;
               globalTopic = findTopic ''global'' allTopics
           in \<exists>f w0 earlier w1 w2.
                formatters fb web (ext_type sess) = Some f
              \<and> singleLoop ms (Some f) sess session topics' globalTopic globalContext [] w0 = (Inr earlier, w1)
              \<and> processMessage sess (parseIncomingMessage f (Some m)) session topics' globalTopic
                    globalContext w1 = (Inr out, w2)
              \<and> w' = libSession_save session w2))"
proof (intro conjI impI)
  show "strategySwitch Single (ms @ [m]) fmt sess yak topics g gc w =
     (case singleLoop ms fmt sess yak topics g gc [] w of
        (Inl e, w1) \<Rightarrow> (Inl e, w1)
      | (Inr earlier, w1) \<Rightarrow>
          (case fmt of
             None \<Rightarrow> (Inl TypeError, w1)
           | Some f \<Rightarrow> processMessage sess (parseIncomingMessage f (Some m)) yak topics g gc w1))"
    by (rule strategySwitch_Single_snoc)
next
  let ?topics = "filter (\<lambda>t. topic.name t \<noteq> ''global'') allTopics"
  let ?g = "findTopic ''global'' allTopics"
  let ?fmt = "formatters fb web (ext_type sess)"
  let ?ld = "(loadSession ((case getSessionId options of Some f \<Rightarrow> f | None \<Rightarrow> ext_id) sess)
                 ((case getSessionType options of Some f \<Rightarrow> f | None \<Rightarrow> ext_type) sess) w)"
  let ?yak = "fst ?ld"
  let ?gc = "nextRef (snd ?ld)"
  assume a: "messageOptions options = Some Single
      \<and> init_handler allTopics options fb web sess (Batch (ms @ [m])) w = (Inr out, w')"
  from a have a1: "messageOptions options = Some Single" by (rule conjunct1)
  from a have a2: "init_handler allTopics options fb web sess (Batch (ms @ [m])) w = (Inr out, w')"
    by (rule conjunct2)
  from init_handler_Single [OF a1 a2] obtain w0 w2 where
    sw: "strategySwitch Single (ms @ [m]) ?fmt sess ?yak ?topics ?g ?gc w0 = (Inr out, w2)"
    and save: "w' = libSession_save ?yak w2"
    by blast
  obtain r1 w1 where sl: "singleLoop ms ?fmt sess ?yak ?topics ?g ?gc [] w0 = (r1, w1)"
    by (cases "singleLoop ms ?fmt sess ?yak ?topics ?g ?gc [] w0")
  from sw sl obtain earlier f where
    e: "r1 = Inr earlier" and f: "?fmt = Some f"
    and pm: "processMessage sess (parseIncomingMessage f (Some m)) ?yak ?topics ?g ?gc w1 = (Inr out, w2)"
    unfolding strategySwitch_Single_snoc
    by (cases r1; cases ?fmt) auto
  from sl e f pm save f
  have "\<exists>f w0 earlier w1 w2.
             formatters fb web (ext_type sess) = Some f
           \<and> singleLoop ms (Some f) sess ?yak ?topics ?g ?gc [] w0 = (Inr earlier, w1)
           \<and> processMessage sess (parseIncomingMessage f (Some m)) ?yak ?topics ?g ?gc w1 = (Inr out, w2)
           \<and> w' = libSession_save ?yak w2"
    by (intro exI[of _ f] exI[of _ w0] exI[of _ earlier] exI[of _ w1] exI[of _ w2]) simp
  then show "(let ld = (loadSession ((case getSessionId options of Some f \<Rightarrow> f | None \<Rightarrow> ext_id) sess)
                 ((case getSessionType options of Some f \<Rightarrow> f | None \<Rightarrow> ext_type) sess) w);
               session = fst ld;
               globalContext = nextRef (snd ld);
               topics' = filter (\<lambda>t. topic.name t \<noteq> ''global'') allTopics;
               globalTopic = findTopic ''global'' allTopics
           in \<exists>f w0 earlier w1 w2.
                formatters fb web (ext_type sess) = Some f
              \<and> singleLoop ms (Some f) sess session topics' globalTopic globalContext [] w0 = (Inr earlier, w1)
              \<and> processMessage sess (parseIncomingMessage f (Some m)) session topics' globalTopic
                    globalContext w1 = (Inr out, w2)
              \<and> w' = libSession_save session w2)"
    unfolding Let_def .
qed


theorem single_strategy_returns_last_result_witness:
  "messageOptions singleOptions = Some Single
   \<and> fst (init_handler [mainTopicEx, emptyGlobal] singleOptions textFormatter textFormatter webUser
            (Batch ([''hello''] @ [''bye''])) emptyWorld) = Inr []
   \<and> calls (snd (init_handler [mainTopicEx, emptyGlobal] singleOptions textFormatter textFormatter webUser
            (Batch ([''hello''] @ [''bye''])) emptyWorld)) =
       [CallInit ''main'', CallParse ''hello'', CallHandler ''hello'', CallParse ''hello'']
   \<and> (\<exists>f w0 earlier w1 w2.
         formatters textFormatter textFormatter (ext_type webUser) = Some f
       \<and> singleLoop [''hello''] (Some f) webUser 1
            (filter (\<lambda>t. topic.name t \<noteq> ''global'') [mainTopicEx, emptyGlobal])
            (findTopic ''global'' [mainTopicEx, emptyGlobal]) 2 [] w0 = (Inr earlier, w1)
       \<and> processMessage webUser (parseIncomingMessage f (Some ''bye'')) 1
            (filter (\<lambda>t. topic.name t \<noteq> ''global'') [mainTopicEx, emptyGlobal])
            (findTopic ''global'' [mainTopicEx, emptyGlobal]) 2 w1 = (Inr [], w2)
       \<and> snd (init_handler [mainTopicEx, emptyGlobal] singleOptions textFormatter textFormatter webUser
            (Batch ([''hello''] @ [''bye''])) emptyWorld) = libSession_save 1 w2)"
proof -
  let ?run = "init_handler [mainTopicEx, emptyGlobal] singleOptions textFormatter textFormatter webUser
            (Batch ([''hello''] @ [''bye''])) emptyWorld"
  have o: "messageOptions singleOptions = Some Single"
    by (simp add: singleOptions_def)
  have r: "fst ?run = Inr []"
    by (simp add: init_handler_def loadSession_def bootstrap_def strategySwitch_def enterTopic_def
          processMessage_def dispatch_def localPhase_def globalPhase_def runHook_def invoke_def
          invokeExt_def alloc_def allocArray_def allocSession_def resetContexts_def pushContext_def
          activeContext_def contextsOf_def findTopic_def formatters_def libSession_get_def
          libSession_save_def hookCondition_def mainTopicEx_def emptyGlobal_def helloHook_def
          defTopic_def defPattern_def literal_def singleOptions_def defaultOptions_def
          textFormatter_def webUser_def emptyWorld_def blankContext_def blankSession_def Let_def)
  have c: "calls (snd ?run) = [CallInit ''main'', CallParse ''hello'', CallHandler ''hello'', CallParse ''hello'']"
    by (simp add: init_handler_def loadSession_def bootstrap_def strategySwitch_def enterTopic_def
          processMessage_def dispatch_def localPhase_def globalPhase_def runHook_def invoke_def
          invokeExt_def alloc_def allocArray_def allocSession_def resetContexts_def pushContext_def
          activeContext_def contextsOf_def findTopic_def formatters_def libSession_get_def
          libSession_save_def hookCondition_def mainTopicEx_def emptyGlobal_def helloHook_def
          defTopic_def defPattern_def literal_def singleOptions_def defaultOptions_def
          textFormatter_def webUser_def emptyWorld_def blankContext_def blankSession_def Let_def)
  have e: "?run = (Inr [], snd ?run)"
    using r by (simp add: prod_eq_iff)
  have ld: "loadSession ((case getSessionId singleOptions of Some f \<Rightarrow> f | None \<Rightarrow> ext_id) webUser)
              ((case getSessionType singleOptions of Some f \<Rightarrow> f | None \<Rightarrow> ext_type) webUser) emptyWorld =
            (1, emptyWorld\<lparr>arrays := (arrays emptyWorld)(0 := []),
                           sessions := (sessions emptyWorld)
                             (1 := \<lparr>id' = ''u1'', type' = ''web'', contexts = 0, virgin = True\<rparr>),
                           nextRef := 2\<rparr>)"
    by (simp add: loadSession_def libSession_get_def allocArray_def allocSession_def singleOptions_def
                  webUser_def emptyWorld_def Let_def)
  from single_strategy_returns_last_result [where ms = "[''hello'']" and m = "''bye''" and options = singleOptions
               and allTopics = "[mainTopicEx, emptyGlobal]" and fb = textFormatter and web = textFormatter
               and sess = webUser and w = emptyWorld and out = "[]" and w' = "snd ?run",
            THEN conjunct2, rule_format, OF conjI [OF o e]]
  have "\<exists>f w0 earlier w1 w2.
         formatters textFormatter textFormatter (ext_type webUser) = Some f
       \<and> singleLoop [''hello''] (Some f) webUser 1
            (filter (\<lambda>t. topic.name t \<noteq> ''global'') [mainTopicEx, emptyGlobal])
            (findTopic ''global'' [mainTopicEx, emptyGlobal]) 2 [] w0 = (Inr earlier, w1)
       \<and> processMessage webUser (parseIncomingMessage f (Some ''bye'')) 1
            (filter (\<lambda>t. topic.name t \<noteq> ''global'') [mainTopicEx, emptyGlobal])
            (findTopic ''global'' [mainTopicEx, emptyGlobal]) 2 w1 = (Inr [], w2)
       \<and> snd ?run = libSession_save 1 w2"
    unfolding ld Let_def by simp
  with o r c show ?thesis by blast
qed

end
